theory Spec2Isabelle
  imports Complex_Main "HOL-Library.AList" "HOL-Library.Sublist"
begin

section \<open>The Odoo log analyser: reader and endpoint aggregation\<close>

text \<open>
  The development embeds \<^verbatim>\<open>odoo_log_analyser.py\<close>: the function \<^verbatim>\<open>read_log\<close>
  (the loop over the lines of a log file that rebuilds entries and files them under
  their level) and the endpoint statistics loop of \<^verbatim>\<open>main\<close>.

  Modelling decisions.
  \<^item> A string is a list of characters with code points below 256.
  \<^item> A Python \<^verbatim>\<open>dict\<close> is an association list in insertion order; a \<^verbatim>\<open>defaultdict\<close>
    is an association list read with a default.
  \<^item> The values stored in an entry are strings, integers, floats, timestamps and the
    list of context lines: the datatype \<open>pyval\<close>.
  \<^item> A Python \<^verbatim>\<open>float\<close> is a real number: arithmetic is exact, rounding is not
    modelled and neither are the non-finite floats.
  \<^item> Every exception the code can raise is a value \<open>Inl e\<close>; it ends the run.
  \<^item> The library functions \<^verbatim>\<open>float\<close>, \<^verbatim>\<open>int\<close> and \<^verbatim>\<open>datetime.strptime\<close> are
    parameters of the model (the record \<open>builtins\<close>): general theorems hold for
    every choice of them.
  \<^item> A file is the list of the lines that iterating over it yields, each with its line
    feed; a file that cannot be opened raises \<^verbatim>\<open>OSError\<close>. Decoding errors are not
    modelled.
  \<^item> The progress display of \<^verbatim>\<open>read_log\<close> only prints; it is left out.
\<close>

subsection \<open>Values, errors, dictionaries\<close>

datatype py_error =
  IndexError | KeyError | ValueError | TypeError | AttributeError | ZeroDivisionError | OSError

datatype datetime = Datetime nat nat nat nat nat nat

datatype pyval =
    PyStr string
  | PyInt int
  | PyFloat real
  | PyTime datetime
  | PyList "string list"

type_synonym entry = "(string \<times> pyval) list"

type_synonym log = "(pyval \<times> entry list) list"

definition bindE :: "py_error + 'a \<Rightarrow> ('a \<Rightarrow> py_error + 'b) \<Rightarrow> py_error + 'b" where
  "bindE m f = (case m of Inl e \<Rightarrow> Inl e | Inr x \<Rightarrow> f x)"

text \<open>\<^verbatim>\<open>xs[i]\<close>: a negative index counts from the end, an index out of range raises.\<close>

definition idx :: "'a list \<Rightarrow> int \<Rightarrow> py_error + 'a" where
  "idx xs i =
     (if 0 \<le> i then (if nat i < length xs then Inr (xs ! nat i) else Inl IndexError)
      else (if nat (- i) \<le> length xs then Inr (xs ! (length xs - nat (- i))) else Inl IndexError))"

text \<open>\<^verbatim>\<open>d[k]\<close> on a plain dictionary raises \<^verbatim>\<open>KeyError\<close> when the key is missing.\<close>

definition getitem :: "('k \<times> 'v) list \<Rightarrow> 'k \<Rightarrow> py_error + 'v" where
  "getitem d k = (case map_of d k of None \<Rightarrow> Inl KeyError | Some v \<Rightarrow> Inr v)"

text \<open>\<^verbatim>\<open>d[k] = v\<close>: an existing key keeps its place, a new key goes last.\<close>

definition setitem :: "'k \<Rightarrow> 'v \<Rightarrow> ('k \<times> 'v) list \<Rightarrow> ('k \<times> 'v) list" where
  "setitem k v d = AList.update k v d"

definition setdefault :: "'k \<Rightarrow> 'v \<Rightarrow> ('k \<times> 'v) list \<Rightarrow> ('k \<times> 'v) list" where
  "setdefault k v d = (if map_of d k = None then setitem k v d else d)"

text \<open>Reading a \<^verbatim>\<open>defaultdict\<close>: a missing key reads as the default.\<close>

definition getdefault :: "'v \<Rightarrow> ('k \<times> 'v) list \<Rightarrow> 'k \<Rightarrow> 'v" where
  "getdefault dflt d k = (case map_of d k of None \<Rightarrow> dflt | Some v \<Rightarrow> v)"

definition setitems :: "('k \<times> 'v) list \<Rightarrow> ('k \<times> 'v) list \<Rightarrow> ('k \<times> 'v) list" where
  "setitems kvs d = fold (\<lambda>kv. setitem (fst kv) (snd kv)) kvs d"

subsection \<open>Library functions and tables\<close>

text \<open>
  \<^verbatim>\<open>float(s)\<close>, \<^verbatim>\<open>int(s)\<close> and \<^verbatim>\<open>strptime(s, "%Y-%m-%d %H:%M:%S")\<close> belong to
  Python, not to the program: each is a parameter that returns \<open>None\<close> where the
  library raises \<^verbatim>\<open>ValueError\<close>.
\<close>

record builtins =
  py_float :: "string \<Rightarrow> real option"
  py_int :: "string \<Rightarrow> int option"
  py_strptime :: "string \<Rightarrow> datetime option"

definition to_float :: "builtins \<Rightarrow> string \<Rightarrow> py_error + real" where
  "to_float B s = (case py_float B s of None \<Rightarrow> Inl ValueError | Some x \<Rightarrow> Inr x)"

definition to_int :: "builtins \<Rightarrow> string \<Rightarrow> py_error + int" where
  "to_int B s = (case py_int B s of None \<Rightarrow> Inl ValueError | Some i \<Rightarrow> Inr i)"

definition to_datetime :: "builtins \<Rightarrow> string \<Rightarrow> py_error + datetime" where
  "to_datetime B s = (case py_strptime B s of None \<Rightarrow> Inl ValueError | Some t \<Rightarrow> Inr t)"

text \<open>\<^verbatim>\<open>logging.getLevelNamesMapping()\<close>, in the order of its keys.\<close>

definition LEVEL_MAPPING :: "(string \<times> int) list" where
  "LEVEL_MAPPING =
     [(''CRITICAL'', 50), (''FATAL'', 50), (''ERROR'', 40), (''WARN'', 30), (''WARNING'', 30),
      (''INFO'', 20), (''DEBUG'', 10), (''NOTSET'', 0)]"

definition LOG_LEVELS :: "string list" where
  "LOG_LEVELS = map fst LEVEL_MAPPING"

definition REQUEST_KEY :: string where
  "REQUEST_KEY = ''REQUEST''"

definition YEAR_SUFFIX :: string where
  "YEAR_SUFFIX = ''202''"

subsection \<open>String operations\<close>

text \<open>The characters below 256 that \<^verbatim>\<open>str.split()\<close> treats as white space.\<close>

definition is_space :: "char \<Rightarrow> bool" where
  "is_space c \<longleftrightarrow>
     (of_char c :: nat) \<in> set [9, 10, 11, 12, 13, 28, 29, 30, 31, 32, 133, 160]"

text \<open>\<^verbatim>\<open>line.split()\<close>: the maximal runs of characters that are not white space.\<close>

fun split_from :: "string \<Rightarrow> string \<Rightarrow> string list" where
  "split_from tok [] = (if tok = [] then [] else [tok])"
| "split_from tok (c # cs) =
     (if is_space c then (if tok = [] then split_from [] cs else tok # split_from [] cs)
      else split_from (tok @ [c]) cs)"

definition str_split :: "string \<Rightarrow> string list" where
  "str_split line = split_from [] line"

text \<open>\<^verbatim>\<open>sub in s\<close> for strings.\<close>

fun str_in :: "string \<Rightarrow> string \<Rightarrow> bool" where
  "str_in sub [] = (sub = [])"
| "str_in sub (c # cs) = (prefix sub (c # cs) \<or> str_in sub cs)"

text \<open>\<^verbatim>\<open>s.split(sep)[0]\<close>: the part of \<open>s\<close> before the first \<open>sep\<close>.\<close>

definition split_first :: "char \<Rightarrow> string \<Rightarrow> string" where
  "split_first sep s = takeWhile (\<lambda>c. c \<noteq> sep) s"

text \<open>\<^verbatim>\<open>sep.join(xs)\<close>.\<close>

fun join :: "string \<Rightarrow> string list \<Rightarrow> string" where
  "join sep [] = []"
| "join sep [x] = x"
| "join sep (x # y # ys) = x @ sep @ join sep (y # ys)"

subsection \<open>The reader (\<^verbatim>\<open>read_log\<close>)\<close>

text \<open>
  The test of line 48: the line starts with the year prefix and one of the level names,
  between two spaces, occurs in its first 40 characters.
\<close>

definition is_header :: "string \<Rightarrow> bool" where
  "is_header line \<longleftrightarrow>
     prefix YEAR_SUFFIX line \<and>
     list_ex (\<lambda>ll. str_in ('' '' @ ll @ '' '') (take 40 line)) LOG_LEVELS"

text \<open>\<^verbatim>\<open>log[k].append(e)\<close> on the \<^verbatim>\<open>defaultdict(list)\<close>: a new key starts with the empty list.\<close>

definition log_append :: "pyval \<Rightarrow> entry \<Rightarrow> log \<Rightarrow> log" where
  "log_append k e logd = AList.map_default k [e] (\<lambda>ls. ls @ [e]) logd"

text \<open>
  Lines 52 and 53: a non-empty \<^verbatim>\<open>current_line\<close> is appended to the list that the
  \<^verbatim>\<open>defaultdict\<close> holds under its level. A list is not hashable, so it cannot be a key
  (the program only ever stores strings under \<^verbatim>\<open>level\<close>).
\<close>

definition end_previous :: "log \<times> entry \<Rightarrow> py_error + log" where
  "end_previous st =
     (case st of (logd, current_line) \<Rightarrow>
        if current_line = [] then Inr logd
        else bindE (getitem current_line ''level'') (\<lambda>k.
          case k of
            PyList _ \<Rightarrow> Inl TypeError
          | _ \<Rightarrow> Inr (log_append k current_line logd)))"

text \<open>
  Lines 64 to 80, the request branch. \<open>None\<close> stands for \<^verbatim>\<open>continue\<close>: the line is
  skipped and \<^verbatim>\<open>current_line\<close> stays the empty dictionary of line 54.
\<close>

definition request_fields ::
  "builtins \<Rightarrow> real \<Rightarrow> string \<Rightarrow> string list \<Rightarrow> py_error + entry option" where
  "request_fields B threshold line fragments =
     (if threshold = 0 \<or> suffix ''-'' line then Inr None
      else
        bindE (idx fragments (- 1)) (\<lambda>f1.
        bindE (to_float B f1) (\<lambda>other_time.
        bindE (idx fragments (- 2)) (\<lambda>f2.
        bindE (to_float B f2) (\<lambda>sql_time.
        let total_time = other_time + sql_time in
        if total_time < threshold then Inr None
        else
          bindE (idx fragments 6) (\<lambda>ip.
          bindE (idx fragments 11) (\<lambda>f11.
          bindE (idx fragments 12) (\<lambda>endpoint.
          bindE (idx fragments 14) (\<lambda>status.
          bindE (idx fragments (- 3)) (\<lambda>f3.
          bindE (to_int B f3) (\<lambda>query_count.
          Inr (Some (setitems
            [(''ip'', PyStr ip),
             (''method'', PyStr (drop 1 f11)),
             (''endpoint'', PyStr endpoint),
             (''status'', PyStr status),
             (''other_time'', PyFloat other_time),
             (''sql_time'', PyFloat sql_time),
             (''total_time'', PyFloat total_time),
             (''query_count'', PyInt query_count),
             (''level'', PyStr REQUEST_KEY)] [])))))))))))))"

text \<open>Lines 83 to 86, the branch of every other header.\<close>

definition message_fields :: "int \<Rightarrow> string \<Rightarrow> string list \<Rightarrow> entry option" where
  "message_fields severity level fragments =
     (if getdefault 0 LEVEL_MAPPING level < severity then None
      else Some (setitems
        [(''message'', PyStr (join '' '' (drop 6 fragments))),
         (''context'', PyList [])] []))"

text \<open>Lines 88 to 99, the fields that both kinds of entry have.\<close>

definition common_fields ::
  "builtins \<Rightarrow> string \<Rightarrow> string \<Rightarrow> string \<Rightarrow> string list \<Rightarrow> entry \<Rightarrow> py_error + entry" where
  "common_fields B level db logger fragments current_line =
     bindE (idx fragments 0) (\<lambda>date_str.
     bindE (idx fragments 1) (\<lambda>f1.
     let time_str = split_first CHR '','' (split_first CHR ''.'' f1) in
     bindE (to_datetime B (join '' '' [date_str, time_str])) (\<lambda>timestamp.
     bindE (idx fragments 2) (\<lambda>f2.
     bindE (to_int B f2) (\<lambda>pid.
     Inr (setitems [(''db'', PyStr db), (''logger'', PyStr logger)]
           (setdefault ''level'' (PyStr level)
             (setitems [(''timestamp'', PyTime timestamp), (''pid'', PyInt pid)]
                current_line))))))))"

text \<open>
  Lines 54 to 99: the entry a header line opens. The empty dictionary is the result of
  every \<^verbatim>\<open>continue\<close>.
\<close>

definition new_entry :: "builtins \<Rightarrow> real \<Rightarrow> int \<Rightarrow> bool \<Rightarrow> string \<Rightarrow> py_error + entry" where
  "new_entry B threshold severity ignore_no_db line =
     (let fragments = str_split line in
      bindE (idx fragments 3) (\<lambda>level.
      bindE (idx fragments 5) (\<lambda>f5.
      let logger = butlast f5 in
      bindE (idx fragments 4) (\<lambda>db.
      if ignore_no_db \<and> db = ''?'' then Inr []
      else
        bindE (if logger = ''werkzeug'' \<and> level = ''INFO''
               then request_fields B threshold line fragments
               else Inr (message_fields severity level fragments)) (\<lambda>r.
        case r of
          None \<Rightarrow> Inr []
        | Some current_line \<Rightarrow> common_fields B level db logger fragments current_line)))))"

text \<open>Lines 101 and 102: a line that is not a header.\<close>

definition continuation :: "entry \<Rightarrow> string \<Rightarrow> py_error + entry" where
  "continuation current_line line =
     (case map_of current_line ''context'' of
        None \<Rightarrow> Inr current_line
      | Some (PyList ctx) \<Rightarrow> Inr (setitem ''context'' (PyList (ctx @ [line])) current_line)
      | Some _ \<Rightarrow> Inl AttributeError)"

text \<open>The body of the loop over the lines; the state is the pair of \<^verbatim>\<open>log\<close> and \<^verbatim>\<open>current_line\<close>.\<close>

definition step ::
  "builtins \<Rightarrow> real \<Rightarrow> int \<Rightarrow> bool \<Rightarrow> log \<times> entry \<Rightarrow> string \<Rightarrow> py_error + log \<times> entry" where
  "step B threshold severity ignore_no_db st line =
     (if is_header line then
        bindE (end_previous st) (\<lambda>logd.
        bindE (new_entry B threshold severity ignore_no_db line) (\<lambda>current_line.
        Inr (logd, current_line)))
      else
        bindE (continuation (snd st) line) (\<lambda>current_line. Inr (fst st, current_line)))"

fun loop ::
  "builtins \<Rightarrow> real \<Rightarrow> int \<Rightarrow> bool \<Rightarrow> log \<times> entry \<Rightarrow> string list \<Rightarrow> py_error + log \<times> entry" where
  "loop B threshold severity ignore_no_db st [] = Inr st"
| "loop B threshold severity ignore_no_db st (line # lines) =
     bindE (step B threshold severity ignore_no_db st line)
       (\<lambda>st'. loop B threshold severity ignore_no_db st' lines)"

text \<open>
  \<^verbatim>\<open>read_log\<close>. The file system is a function from paths to the lines that iterating
  over the open file yields (each with its line end), \<open>None\<close> where \<^verbatim>\<open>open\<close> raises.
  \<^verbatim>\<open>not threshold\<close> holds for \<^verbatim>\<open>None\<close> and for zero.
\<close>

definition falsy :: "real option \<Rightarrow> bool" where
  "falsy threshold \<longleftrightarrow> threshold = None \<or> threshold = Some 0"

text \<open>\<^verbatim>\<open>threshold or 0\<close>.\<close>

definition or_zero :: "real option \<Rightarrow> real" where
  "or_zero threshold = (if falsy threshold then 0 else the threshold)"

definition default_severity :: int where
  "default_severity = 1 + Max (set (map snd LEVEL_MAPPING))"

text \<open>The severity that stands for "no severity given": one above the highest level.\<close>

definition or_default :: "int option \<Rightarrow> int" where
  "or_default severity = (case severity of None \<Rightarrow> default_severity | Some s \<Rightarrow> s)"

definition read_log ::
  "builtins \<Rightarrow> (string \<Rightarrow> string list option) \<Rightarrow> string \<Rightarrow> real option \<Rightarrow> int option \<Rightarrow> bool
     \<Rightarrow> py_error + log" where
  "read_log B fs logfile threshold severity ignore_no_db =
     (if falsy threshold \<and> severity = None then Inr []
      else
        let threshold' = or_zero threshold;
            severity' = or_default severity
        in case fs logfile of
             None \<Rightarrow> Inl OSError
           | Some lines \<Rightarrow>
               bindE (loop B threshold' severity' ignore_no_db ([], []) lines)
                 (\<lambda>st. Inr (fst st)))"

subsection \<open>A decimal instance of the library functions\<close>

text \<open>
  For running the model on concrete lines: \<open>dec_int\<close> reads an optional sign and
  decimal digits, \<open>dec_float\<close> an optional sign, digits, a point and digits, and
  \<open>iso_strptime\<close> the zero-padded form \<^verbatim>\<open>YYYY-MM-DD HH:MM:SS\<close>. On these forms
  they return what Python returns; Python reads further notations (exponents, digit
  separators, one-digit fields), on which the instance returns \<open>None\<close>, so it is used
  on the forms above only.
\<close>

definition digit_val :: "char \<Rightarrow> nat option" where
  "digit_val c =
     (if (48 :: nat) \<le> of_char c \<and> (of_char c :: nat) \<le> 57 then Some (of_char c - 48) else None)"

fun digits_from :: "nat \<Rightarrow> string \<Rightarrow> nat option" where
  "digits_from acc [] = Some acc"
| "digits_from acc (c # cs) =
     (case digit_val c of None \<Rightarrow> None | Some d \<Rightarrow> digits_from (10 * acc + d) cs)"

definition dec_nat :: "string \<Rightarrow> nat option" where
  "dec_nat s = (if s = [] then None else digits_from 0 s)"

definition dec_int :: "string \<Rightarrow> int option" where
  "dec_int s =
     (case s of
        [] \<Rightarrow> None
      | c # cs \<Rightarrow>
          if c = CHR ''-'' then map_option (\<lambda>n. - int n) (dec_nat cs)
          else if c = CHR ''+'' then map_option int (dec_nat cs)
          else map_option int (dec_nat s))"

definition dec_unsigned :: "string \<Rightarrow> real option" where
  "dec_unsigned s =
     (let ip = takeWhile (\<lambda>c. c \<noteq> CHR ''.'') s;
          fp = drop 1 (dropWhile (\<lambda>c. c \<noteq> CHR ''.'') s)
      in if ip = [] \<and> fp = [] then None
         else case (digits_from 0 ip, digits_from 0 fp) of
                (Some i, Some f) \<Rightarrow> Some (real i + real f / 10 ^ length fp)
              | _ \<Rightarrow> None)"

definition dec_float :: "string \<Rightarrow> real option" where
  "dec_float s =
     (case s of
        [] \<Rightarrow> None
      | c # cs \<Rightarrow>
          if c = CHR ''-'' then map_option uminus (dec_unsigned cs)
          else if c = CHR ''+'' then dec_unsigned cs
          else dec_unsigned s)"

definition days_in_month :: "nat \<Rightarrow> nat \<Rightarrow> nat" where
  "days_in_month y m =
     (if m = 2 then (if y mod 4 = 0 \<and> (y mod 100 \<noteq> 0 \<or> y mod 400 = 0) then 29 else 28)
      else if m \<in> set [4, 6, 9, 11] then 30 else 31)"

definition iso_strptime :: "string \<Rightarrow> datetime option" where
  "iso_strptime s =
     (if length s = 19 \<and> s ! 4 = CHR ''-'' \<and> s ! 7 = CHR ''-'' \<and> s ! 10 = CHR '' ''
         \<and> s ! 13 = CHR '':'' \<and> s ! 16 = CHR '':''
      then
        case (dec_nat (take 4 s), dec_nat (take 2 (drop 5 s)), dec_nat (take 2 (drop 8 s)),
              dec_nat (take 2 (drop 11 s)), dec_nat (take 2 (drop 14 s)),
              dec_nat (take 2 (drop 17 s))) of
          (Some y, Some m, Some d, Some hh, Some mm, Some ss) \<Rightarrow>
            if 1 \<le> y \<and> 1 \<le> m \<and> m \<le> 12 \<and> 1 \<le> d \<and> d \<le> days_in_month y m
               \<and> hh < 24 \<and> mm < 60 \<and> ss < 60
            then Some (Datetime y m d hh mm ss) else None
        | _ \<Rightarrow> None
      else None)"

definition std :: builtins where
  "std = \<lparr>py_float = dec_float, py_int = dec_int, py_strptime = iso_strptime\<rparr>"

subsection \<open>Endpoint statistics (\<^verbatim>\<open>main\<close>, the loop over the requests)\<close>

definition is_lower :: "char \<Rightarrow> bool" where
  "is_lower c \<longleftrightarrow> (97 :: nat) \<le> of_char c \<and> (of_char c :: nat) \<le> 122"

definition is_upper :: "char \<Rightarrow> bool" where
  "is_upper c \<longleftrightarrow> (65 :: nat) \<le> of_char c \<and> (of_char c :: nat) \<le> 90"

text \<open>
  \<^verbatim>\<open>re.sub(r"^/[a-z]{2}_[A-Z]{2}/", "/", ep)\<close>: the pattern is anchored at the start
  of the string, so at most one match is replaced.
\<close>

fun strip_lang :: "string \<Rightarrow> string" where
  "strip_lang (s0 # a # b # u # c # d # s1 # rest) =
     (if s0 = CHR ''/'' \<and> is_lower a \<and> is_lower b \<and> u = CHR ''_'' \<and> is_upper c \<and> is_upper d
         \<and> s1 = CHR ''/''
      then CHR ''/'' # rest
      else s0 # a # b # u # c # d # s1 # rest)"
| "strip_lang ep = ep"

text \<open>
  One turn of the loop over \<^verbatim>\<open>requests\<close>. The state is the pair of the two
  \<^verbatim>\<open>defaultdict(int)\<close>: \<^verbatim>\<open>ep_hits\<close> and \<^verbatim>\<open>ep_times\<close>.
\<close>

type_synonym ep_stats = "(string \<times> int) list \<times> (string \<times> real) list"

definition as_str :: "pyval \<Rightarrow> py_error + string" where
  "as_str v = (case v of PyStr s \<Rightarrow> Inr s | _ \<Rightarrow> Inl TypeError)"

definition as_number :: "pyval \<Rightarrow> py_error + real" where
  "as_number v = (case v of PyFloat x \<Rightarrow> Inr x | PyInt i \<Rightarrow> Inr (of_int i) | _ \<Rightarrow> Inl TypeError)"

definition ep_update :: "ep_stats \<Rightarrow> entry \<Rightarrow> py_error + ep_stats" where
  "ep_update st line =
     (case st of (ep_hits, ep_times) \<Rightarrow>
      bindE (getitem line ''endpoint'') (\<lambda>epv.
      bindE (as_str epv) (\<lambda>ep0.
      let ep = strip_lang ep0 in
      bindE (getitem line ''total_time'') (\<lambda>ttv.
      bindE (as_number ttv) (\<lambda>total_time.
      if getdefault 0 ep_hits ep + 1 = 0 then Inl ZeroDivisionError
      else
        let ep_times' = setitem ep
               ((getdefault 0 ep_times ep * of_int (getdefault 0 ep_hits ep) + total_time)
                 / of_int (getdefault 0 ep_hits ep + 1)) ep_times;
            ep_hits' = setitem ep (getdefault 0 ep_hits ep + 1) ep_hits
        in Inr (ep_hits', ep_times'))))))"

fun ep_loop :: "ep_stats \<Rightarrow> entry list \<Rightarrow> py_error + ep_stats" where
  "ep_loop st [] = Inr st"
| "ep_loop st (line # requests) = bindE (ep_update st line) (\<lambda>st'. ep_loop st' requests)"

definition endpoint_stats :: "entry list \<Rightarrow> py_error + ep_stats" where
  "endpoint_stats requests = ep_loop ([], []) requests"

text \<open>
  The batch mean, written from the specification's words: the arithmetic mean of the
  total times of all requests whose normalised endpoint is \<open>E\<close>.
\<close>

definition request_entry :: "entry \<Rightarrow> bool" where
  "request_entry e =
     (case map_of e ''endpoint'' of
        Some (PyStr ep) \<Rightarrow> (case map_of e ''total_time'' of Some (PyFloat t) \<Rightarrow> True | _ \<Rightarrow> False)
      | _ \<Rightarrow> False)"

definition ep_of :: "entry \<Rightarrow> string" where
  "ep_of e = (case map_of e ''endpoint'' of Some (PyStr ep) \<Rightarrow> strip_lang ep | _ \<Rightarrow> [])"

definition time_of :: "entry \<Rightarrow> real" where
  "time_of e = (case map_of e ''total_time'' of Some (PyFloat t) \<Rightarrow> t | _ \<Rightarrow> 0)"

definition times_for :: "string \<Rightarrow> entry list \<Rightarrow> real list" where
  "times_for E requests = map time_of (filter (\<lambda>e. ep_of e = E) requests)"

definition batch_mean :: "string \<Rightarrow> entry list \<Rightarrow> real" where
  "batch_mean E requests = sum_list (times_for E requests) / real (length (times_for E requests))"

subsection \<open>Auxiliary definitions for the statements\<close>

text \<open>
  The invariant of the statistics loop: after the requests \<open>seen\<close>, every endpoint
  holds its number of hits and the batch mean of its times, and an endpoint that was
  not seen has no key.
\<close>

definition stats_ok :: "ep_stats \<Rightarrow> entry list \<Rightarrow> bool" where
  "stats_ok st seen \<longleftrightarrow>
     (\<forall>E. if times_for E seen = []
          then map_of (fst st) E = None \<and> map_of (snd st) E = None
          else map_of (fst st) E = Some (int (length (times_for E seen)))
             \<and> map_of (snd st) E = Some (batch_mean E seen))"

text \<open>A request to \<open>ep\<close> that took \<open>t\<close> seconds, reduced to the two fields the loop reads.\<close>

definition request_to :: "string \<Rightarrow> real \<Rightarrow> entry" where
  "request_to ep t = [(''endpoint'', PyStr ep), (''total_time'', PyFloat t)]"

text \<open>
  The locale prefix in the specification's words: the endpoint starts with a slash, two
  lower-case letters, an underscore, two upper-case letters and a slash.
\<close>

definition has_lang_prefix :: "string \<Rightarrow> bool" where
  "has_lang_prefix ep \<longleftrightarrow>
     7 \<le> length ep \<and> ep ! 0 = CHR ''/'' \<and> is_lower (ep ! 1) \<and> is_lower (ep ! 2) \<and>
     ep ! 3 = CHR ''_'' \<and> is_upper (ep ! 4) \<and> is_upper (ep ! 5) \<and> ep ! 6 = CHR ''/''"

text \<open>
  The two shapes an open or finalised entry can have. A request carries its endpoint
  and the three times, the total being the sum of the other two and not below the
  threshold, and no context; a message carries a context and none of the request
  fields.
\<close>

definition request_keys :: "string list" where
  "request_keys =
     [''ip'', ''method'', ''endpoint'', ''status'', ''other_time'', ''sql_time'', ''total_time'',
      ''query_count'']"

definition request_shape :: "real \<Rightarrow> entry \<Rightarrow> bool" where
  "request_shape threshold e \<longleftrightarrow>
     (\<exists>ep ot sq. map_of e ''endpoint'' = Some (PyStr ep) \<and>
        map_of e ''other_time'' = Some (PyFloat ot) \<and>
        map_of e ''sql_time'' = Some (PyFloat sq) \<and>
        map_of e ''total_time'' = Some (PyFloat (ot + sq)) \<and> threshold \<le> ot + sq) \<and>
     map_of e ''context'' = None \<and>
     map_of e ''level'' = Some (PyStr REQUEST_KEY)"

definition message_shape :: "entry \<Rightarrow> bool" where
  "message_shape e \<longleftrightarrow>
     (\<exists>ctx. map_of e ''context'' = Some (PyList ctx)) \<and>
     (\<exists>k. map_of e ''level'' = Some (PyStr k)) \<and>
     list_all (\<lambda>k. map_of e k = None) request_keys"

definition entry_inv :: "real \<Rightarrow> entry \<Rightarrow> bool" where
  "entry_inv threshold e \<longleftrightarrow> request_shape threshold e \<or> message_shape e"

text \<open>The invariant of the loop over the lines.\<close>

definition state_inv :: "real \<Rightarrow> log \<times> entry \<Rightarrow> bool" where
  "state_inv threshold st \<longleftrightarrow>
     (snd st = [] \<or> entry_inv threshold (snd st)) \<and>
     (\<forall>b \<in> set (fst st). \<forall>e \<in> set (snd b). entry_inv threshold e)"

subsection \<open>Example files\<close>

text \<open>
  A file system in which every path holds the given lines, and one without any file.
  Every line of a file ends with a line feed, except possibly the last one.
\<close>

definition file_with :: "string list \<Rightarrow> string \<Rightarrow> string list option" where
  "file_with lines logfile = Some lines"

definition no_file :: "string \<Rightarrow> string list option" where
  "no_file logfile = None"

text \<open>
  The request line of the specification's scenario, as the only line of a file without a
  final line feed.
\<close>

definition spec_line :: string where
  "spec_line =
     ''2024-01-01 10:00:00,000 123 INFO mydb werkzeug: GET / HTTP/1.1 200 - 5 0.010 0.040''"

text \<open>
  The same request in the layout of a werkzeug access line: client address, two dashes,
  the bracketed date, the quoted request, the status, and the timing fields.
\<close>

definition access_line :: string where
  "access_line =
     ''2024-01-01 10:00:00,000 123 INFO mydb werkzeug: 127.0.0.1 - - [01/Jan/2024 10:00:00] ''
     @ [CHR 0x22] @ ''GET / HTTP/1.1'' @ [CHR 0x22] @ '' 200 - 5 0.010 0.040'' @ [CHR 0x0A]"

text \<open>
  A request line without timing data: the three timing fields are dashes. First as the
  last line of a file that has no final line feed, then as any other line of a file.
\<close>

definition noperf_last_line :: string where
  "noperf_last_line =
     ''2024-01-01 10:00:05,000 123 INFO mydb werkzeug: 127.0.0.1 - - [01/Jan/2024 10:00:05] ''
     @ [CHR 0x22] @ ''GET /web HTTP/1.1'' @ [CHR 0x22] @ '' 200 - - - -''"

definition noperf_line :: string where
  "noperf_line = noperf_last_line @ [CHR 0x0A]"

text \<open>A message, two lines that are not headers, and headers of other kinds.\<close>

definition message_line :: string where
  "message_line =
     ''2024-01-01 10:00:01,000 123 WARNING mydb odoo.http: something happened'' @ [CHR 0x0A]"

definition trace_line :: string where
  "trace_line = ''Traceback (most recent call last):'' @ [CHR 0x0A]"

definition error_line :: string where
  "error_line = ''ValueError: boom'' @ [CHR 0x0A]"

definition error_message_line :: string where
  "error_message_line =
     ''2024-01-01 10:00:04,000 123 ERROR mydb odoo.sql_db: bad query'' @ [CHR 0x0A]"

definition debug_line :: string where
  "debug_line = ''2024-01-01 10:00:06,000 123 DEBUG mydb odoo.api: call'' @ [CHR 0x0A]"

definition unknown_level_line :: string where
  "unknown_level_line = ''2024-01-01 10:00:02 1 TEST db a: INFO x'' @ [CHR 0x0A]"

definition nodb_line :: string where
  "nodb_line = ''2024-01-01 10:00:03,000 123 INFO ? odoo.service: starting'' @ [CHR 0x0A]"

definition short_nodb_line :: string where
  "short_nodb_line = ''2024-01-01 10:00:00,000 123 INFO ?'' @ [CHR 0x0A]"

text \<open>The entries that the access line and the message line open.\<close>

definition access_entry :: entry where
  "access_entry =
     [(''ip'', PyStr ''127.0.0.1''), (''method'', PyStr ''GET''), (''endpoint'', PyStr ''/''),
      (''status'', PyStr ''200''), (''other_time'', PyFloat (4 / 100)),
      (''sql_time'', PyFloat (1 / 100)), (''total_time'', PyFloat (5 / 100)),
      (''query_count'', PyInt 5), (''level'', PyStr ''REQUEST''),
      (''timestamp'', PyTime (Datetime 2024 1 1 10 0 0)), (''pid'', PyInt 123),
      (''db'', PyStr ''mydb''), (''logger'', PyStr ''werkzeug'')]"

definition error_entry :: "string list \<Rightarrow> entry" where
  "error_entry ctx =
     [(''message'', PyStr ''bad query''), (''context'', PyList ctx),
      (''timestamp'', PyTime (Datetime 2024 1 1 10 0 4)), (''pid'', PyInt 123),
      (''level'', PyStr ''ERROR''), (''db'', PyStr ''mydb''),
      (''logger'', PyStr ''odoo.sql_db'')]"

definition message_entry :: "string list \<Rightarrow> entry" where
  "message_entry ctx =
     [(''message'', PyStr ''something happened''), (''context'', PyList ctx),
      (''timestamp'', PyTime (Datetime 2024 1 1 10 0 1)), (''pid'', PyInt 123),
      (''level'', PyStr ''WARNING''), (''db'', PyStr ''mydb''),
      (''logger'', PyStr ''odoo.http'')]"

section \<open>Properties\<close>

subsection \<open>Basic facts\<close>

lemma bindE_Inl [simp]: "bindE (Inl e) f = Inl e"
  by (simp add: bindE_def)

lemma bindE_Inr [simp]: "bindE (Inr x) f = f x"
  by (simp add: bindE_def)

lemma bindE_eq_Inr: "bindE m f = Inr y \<longleftrightarrow> (\<exists>x. m = Inr x \<and> f x = Inr y)"
  by (cases m) simp_all

lemma map_of_setitem [simp]: "map_of (setitem k v d) = (map_of d)(k \<mapsto> v)"
  by (simp add: setitem_def update_conv')

subsection \<open>The running average is the batch mean\<close>

lemma times_for_snoc:
  "times_for E (seen @ [e]) = times_for E seen @ (if ep_of e = E then [time_of e] else [])"
  by (simp add: times_for_def)

lemma request_entry_D:
  assumes "request_entry e"
  obtains ep t where
    "map_of e ''endpoint'' = Some (PyStr ep)" "map_of e ''total_time'' = Some (PyFloat t)"
    "ep_of e = strip_lang ep" "time_of e = t"
  using assms
  by (auto simp: request_entry_def ep_of_def time_of_def split: option.splits pyval.splits)

lemma mean_snoc:
  fixes ts :: "real list"
  assumes "ts \<noteq> []"
  shows "(sum_list ts / real (length ts) * real_of_int (int (length ts)) + t)
           / real_of_int (int (length ts) + 1)
       = sum_list (ts @ [t]) / real (length (ts @ [t]))"
proof -
  have "real (length ts) \<noteq> 0" using assms by simp
  then have "sum_list ts / real (length ts) * real (length ts) = sum_list ts" by simp
  then show ?thesis by (simp add: add.commute)
qed

lemma ep_update_ok:
  assumes "request_entry e" and "stats_ok st seen"
  shows "\<exists>st'. ep_update st e = Inr st' \<and> stats_ok st' (seen @ [e])"
proof -
  obtain ep_hits ep_times where st: "st = (ep_hits, ep_times)" by (cases st)
  from assms(1) obtain ep t where
    f: "map_of e ''endpoint'' = Some (PyStr ep)" "map_of e ''total_time'' = Some (PyFloat t)"
       "ep_of e = strip_lang ep" "time_of e = t"
    by (rule request_entry_D)
  let ?E = "strip_lang ep"
  let ?ts = "times_for ?E seen"
  have h: "getdefault 0 ep_hits ?E = int (length ?ts)"
    using assms(2) unfolding stats_ok_def st getdefault_def
    by (auto dest!: spec [of _ ?E] split: if_splits)
  have a: "getdefault 0 ep_times ?E = (if ?ts = [] then 0 else batch_mean ?E seen)"
    using assms(2) unfolding stats_ok_def st getdefault_def
    by (auto dest!: spec [of _ ?E] split: if_splits)
  define avg where "avg = (getdefault 0 ep_times ?E * of_int (getdefault 0 ep_hits ?E) + t)
                 / of_int (getdefault 0 ep_hits ?E + 1)"
  have avg: "avg = batch_mean ?E (seen @ [e])"
  proof (cases "?ts = []")
    case True
    then show ?thesis
      by (simp add: avg_def h a batch_mean_def times_for_snoc f)
  next
    case False
    then show ?thesis
      unfolding avg_def h a batch_mean_def times_for_snoc f
      using mean_snoc [OF False, of t] by simp
  qed
  let ?st' = "(setitem ?E (int (length ?ts) + 1) ep_hits, setitem ?E avg ep_times)"
  have upd: "ep_update st e = Inr ?st'"
    by (simp add: ep_update_def st getitem_def f as_str_def as_number_def h avg_def Let_def)
  have "stats_ok ?st' (seen @ [e])"
    unfolding stats_ok_def
  proof (intro allI)
    fix E
    show "if times_for E (seen @ [e]) = []
          then map_of (fst ?st') E = None \<and> map_of (snd ?st') E = None
          else map_of (fst ?st') E = Some (int (length (times_for E (seen @ [e])))) \<and>
               map_of (snd ?st') E = Some (batch_mean E (seen @ [e]))"
    proof (cases "E = ?E")
      case True
      then show ?thesis by (simp add: times_for_snoc f avg)
    next
      case False
      have "times_for E (seen @ [e]) = times_for E seen"
        using False by (simp add: times_for_snoc f)
      moreover have "batch_mean E (seen @ [e]) = batch_mean E seen"
        using False by (simp add: batch_mean_def times_for_snoc f)
      ultimately show ?thesis
        using assms(2) False unfolding stats_ok_def st
        by (auto dest!: spec [of _ E] split: if_splits)
    qed
  qed
  with upd show ?thesis by blast
qed

lemma ep_loop_ok:
  assumes "list_all request_entry requests" and "stats_ok st seen"
  shows "\<exists>st'. ep_loop st requests = Inr st' \<and> stats_ok st' (seen @ requests)"
  using assms
proof (induction requests arbitrary: st seen)
  case Nil
  then show ?case by simp
next
  case (Cons e requests)
  from Cons.prems obtain st1 where
    s1: "ep_update st e = Inr st1" "stats_ok st1 (seen @ [e])"
    using ep_update_ok [of e st seen] by auto
  from Cons.IH [OF _ s1(2)] Cons.prems(1) obtain st' where
    "ep_loop st1 requests = Inr st'" "stats_ok st' ((seen @ [e]) @ requests)"
    by auto
  with s1(1) show ?case by simp
qed

lemma stats_ok_init: "stats_ok ([], []) []"
  by (simp add: stats_ok_def times_for_def)

text \<open>
  Claim C1. For every sequence of request entries and every endpoint \<open>E\<close>, the loop of
  \<^verbatim>\<open>main\<close> returns, and what it leaves under \<open>E\<close> is the number of requests whose
  normalised endpoint is \<open>E\<close> and the arithmetic mean of their total times (no key at all
  when there is no such request). Times are real numbers here, so the equality is
  exact; the program's floats agree with it up to rounding.
\<close>

theorem running_average_is_batch_mean:
  assumes "list_all request_entry requests"
  shows "\<exists>ep_hits ep_times.
           endpoint_stats requests = Inr (ep_hits, ep_times) \<and>
           (if times_for E requests = []
            then map_of ep_hits E = None \<and> map_of ep_times E = None
            else map_of ep_hits E = Some (int (length (times_for E requests)))
               \<and> map_of ep_times E = Some (batch_mean E requests))"
proof -
  from ep_loop_ok [OF assms stats_ok_init] obtain st' where
    r: "ep_loop ([], []) requests = Inr st'" "stats_ok st' requests"
    by auto
  obtain ep_hits ep_times where st': "st' = (ep_hits, ep_times)" by (cases st')
  from r(2) have "if times_for E requests = []
            then map_of ep_hits E = None \<and> map_of ep_times E = None
            else map_of ep_hits E = Some (int (length (times_for E requests)))
               \<and> map_of ep_times E = Some (batch_mean E requests)"
    unfolding stats_ok_def st' by (auto dest!: spec [of _ E] split: if_splits)
  with r(1) show ?thesis unfolding endpoint_stats_def st' by blast
qed

text \<open>
  The scenario of the specification: two requests to \<^verbatim>\<open>/shop\<close> that took 1.0 and 3.0
  seconds give two hits and the average 2.0.
\<close>

theorem running_average_is_batch_mean_witness:
  "list_all request_entry [request_to ''/shop'' 1, request_to ''/shop'' 3] \<and>
   (\<exists>ep_hits ep_times.
      endpoint_stats [request_to ''/shop'' 1, request_to ''/shop'' 3] = Inr (ep_hits, ep_times) \<and>
      map_of ep_hits ''/shop'' = Some 2 \<and> map_of ep_times ''/shop'' = Some 2)"
proof -
  have w: "list_all request_entry [request_to ''/shop'' 1, request_to ''/shop'' 3]"
    by (simp add: request_entry_def request_to_def)
  have t: "times_for ''/shop'' [request_to ''/shop'' 1, request_to ''/shop'' 3] = [1, 3]"
    by (simp add: times_for_def ep_of_def time_of_def request_to_def)
  have b: "batch_mean ''/shop'' [request_to ''/shop'' 1, request_to ''/shop'' 3] = 2"
    by (simp add: batch_mean_def t)
  show ?thesis
    using w running_average_is_batch_mean [OF w, of "''/shop''"] by (simp add: t b)
qed

subsection \<open>Endpoint normalisation\<close>

lemma strip_lang_eq: "strip_lang ep = (if has_lang_prefix ep then CHR ''/'' # drop 7 ep else ep)"
  by (cases ep rule: strip_lang.cases) (simp_all add: has_lang_prefix_def)

lemma endpoint_stats_two:
  "endpoint_stats [request_to ''/en_US/shop'' t1, request_to ''/shop'' t2] =
     Inr ([(''/shop'', 2)], [(''/shop'', (t1 + t2) / 2)])"
  by (simp add: endpoint_stats_def ep_update_def request_to_def getitem_def as_str_def
      as_number_def getdefault_def setitem_def is_lower_def is_upper_def Let_def)

text \<open>
  Claim C9. Before aggregation the endpoint loses one leading segment of the form
  \<^verbatim>\<open>/xx_YY/\<close>, replaced by a slash, and only one: what follows the segment is kept
  as it is. An endpoint without such a prefix is unchanged. So \<^verbatim>\<open>/en_US/shop\<close>
  and \<^verbatim>\<open>/shop\<close> are counted under the one key \<^verbatim>\<open>/shop\<close>.
\<close>

theorem strip_lang_normalises:
  "strip_lang ep = (if has_lang_prefix ep then CHR ''/'' # drop 7 ep else ep) \<and>
   strip_lang ''/en_US/shop'' = ''/shop'' \<and>
   strip_lang ''/shop'' = ''/shop'' \<and>
   strip_lang ''/en_US/fr_FR/shop'' = ''/fr_FR/shop'' \<and>
   endpoint_stats [request_to ''/en_US/shop'' t1, request_to ''/shop'' t2] =
     Inr ([(''/shop'', 2)], [(''/shop'', (t1 + t2) / 2)])"
  using strip_lang_eq [of ep] endpoint_stats_two [of t1 t2]
  by (simp add: is_lower_def is_upper_def)

subsection \<open>The early return\<close>

lemma read_log_missing_file:
  assumes "\<not> (falsy threshold \<and> severity = None)" and "fs logfile = None"
  shows "read_log B fs logfile threshold severity ignore_no_db = Inl OSError"
  using assms by (simp add: read_log_def Let_def)

text \<open>
  Claim C10. When the threshold is unset or zero and no severity is given,
  \<^verbatim>\<open>read_log\<close> returns the empty dictionary whatever the file system holds: the file
  is not opened, so a missing file raises nothing.
\<close>

theorem read_log_nothing_to_capture:
  assumes "falsy threshold"
  shows "read_log B fs logfile threshold None ignore_no_db = Inr []"
  using assms by (simp add: read_log_def)

text \<open>No file exists, the threshold is zero: the result is still the empty dictionary.\<close>

theorem read_log_nothing_to_capture_witness:
  "falsy (Some 0) \<and> read_log std no_file ''odoo.log'' (Some 0) None True = Inr []"
proof -
  have f: "falsy (Some 0)" by (simp add: falsy_def)
  show ?thesis using f read_log_nothing_to_capture [OF f] by simp
qed

subsection \<open>Facts about the reader\<close>

lemma idx_nat: "idx xs (int n) = (if n < length xs then Inr (xs ! n) else Inl IndexError)"
  by (simp add: idx_def)

lemma idx_numeral [simp]:
  "idx xs (numeral n) = (if numeral n < length xs then Inr (xs ! numeral n) else Inl IndexError)"
  using idx_nat [of xs "numeral n"] by simp

lemma idx_0 [simp]: "idx xs 0 = (if xs = [] then Inl IndexError else Inr (xs ! 0))"
  by (simp add: idx_def)

lemma idx_1 [simp]: "idx xs 1 = (if 1 < length xs then Inr (xs ! 1) else Inl IndexError)"
  using idx_nat [of xs 1] by simp

lemma idx_neg_numeral [simp]:
  "idx xs (- numeral n) =
     (if numeral n \<le> length xs then Inr (xs ! (length xs - numeral n)) else Inl IndexError)"
  by (simp add: idx_def)

lemma idx_neg_1 [simp]:
  "idx xs (- 1) = (if xs = [] then Inl IndexError else Inr (xs ! (length xs - 1)))"
  by (cases xs) (simp_all add: idx_def)

lemma setitem_nonempty [simp]: "setitem k v d \<noteq> []"
  by (cases d) (simp_all add: setitem_def)

lemma request_fields_Some:
  assumes "request_fields B threshold line fragments = Inr (Some e)"
  shows "\<exists>ot sq. to_float B (fragments ! (length fragments - 1)) = Inr ot \<and>
               to_float B (fragments ! (length fragments - 2)) = Inr sq \<and>
               map_of e ''other_time'' = Some (PyFloat ot) \<and>
               map_of e ''sql_time'' = Some (PyFloat sq) \<and>
               map_of e ''total_time'' = Some (PyFloat (ot + sq)) \<and>
               threshold \<le> ot + sq"
    and "\<exists>ep. map_of e ''endpoint'' = Some (PyStr ep)"
    and "map_of e ''context'' = None"
    and "map_of e ''level'' = Some (PyStr REQUEST_KEY)"
    and "map_of e ''message'' = None"
  using assms
  by (auto simp: request_fields_def bindE_eq_Inr Let_def setitems_def split: if_splits)

lemma message_fields_Some:
  assumes "message_fields severity level fragments = Some e"
  shows "map_of e ''context'' = Some (PyList [])"
    and "map_of e ''level'' = None"
    and "list_all (\<lambda>k. map_of e k = None) request_keys"
    and "\<not> getdefault 0 LEVEL_MAPPING level < severity"
  using assms
  by (auto simp: message_fields_def setitems_def request_keys_def split: if_splits)

lemma map_of_setdefault:
  "map_of (setdefault k v d) = (case map_of d k of None \<Rightarrow> (map_of d)(k \<mapsto> v) | Some w \<Rightarrow> map_of d)"
  by (simp add: setdefault_def split: option.splits)

lemma setdefault_nonempty [simp]: "setdefault k v d \<noteq> []"
  by (cases d) (simp_all add: setdefault_def)

lemma common_fields_Inr:
  assumes "common_fields B level db logger fragments cur = Inr e"
  shows "map_of e ''level'' = (case map_of cur ''level'' of None \<Rightarrow> Some (PyStr level) | Some v \<Rightarrow> Some v)"
    and "k \<notin> {''timestamp'', ''pid'', ''level'', ''db'', ''logger''} \<Longrightarrow> map_of e k = map_of cur k"
    and "e \<noteq> []"
proof -
  from assms obtain ts pid where
    e: "e = setitems [(''db'', PyStr db), (''logger'', PyStr logger)]
           (setdefault ''level'' (PyStr level)
             (setitems [(''timestamp'', PyTime ts), (''pid'', PyInt pid)] cur))"
    by (auto simp: common_fields_def bindE_eq_Inr Let_def split: if_splits)
  show "map_of e ''level'' = (case map_of cur ''level'' of None \<Rightarrow> Some (PyStr level) | Some v \<Rightarrow> Some v)"
    by (simp add: e setitems_def map_of_setdefault split: option.splits)
  show "map_of e k = map_of cur k" if "k \<notin> {''timestamp'', ''pid'', ''level'', ''db'', ''logger''}"
    using that by (simp add: e setitems_def map_of_setdefault split: option.splits)
  show "e \<noteq> []"
    by (simp add: e setitems_def)
qed

lemma new_entry_cases:
  assumes "new_entry B threshold severity ignore_no_db line = Inr e"
  shows "e = [] \<or> request_shape threshold e \<or>
         (map_of e ''context'' = Some (PyList []) \<and> message_shape e)"
proof -
  let ?fr = "str_split line"
  show ?thesis
  proof (cases "e = []")
    case True
    then show ?thesis by simp
  next
    case False
    with assms obtain r cur where
      r: "(if butlast (?fr ! 5) = ''werkzeug'' \<and> ?fr ! 3 = ''INFO''
           then request_fields B threshold line ?fr
           else Inr (message_fields severity (?fr ! 3) ?fr)) = Inr r"
      and cur: "r = Some cur"
        "common_fields B (?fr ! 3) (?fr ! 4) (butlast (?fr ! 5)) ?fr cur = Inr e"
      by (auto simp: new_entry_def bindE_eq_Inr Let_def split: if_splits option.splits)
    note cf = common_fields_Inr [OF cur(2)]
    show ?thesis
    proof (cases "butlast (?fr ! 5) = ''werkzeug'' \<and> ?fr ! 3 = ''INFO''")
      case True
      with r cur have rf: "request_fields B threshold line ?fr = Inr (Some cur)" by simp
      note f = request_fields_Some [OF rf]
      have "request_shape threshold e"
        unfolding request_shape_def using f cf(1) by (auto simp: cf(2))
      then show ?thesis by simp
    next
      case False
      with r cur have mf: "message_fields severity (?fr ! 3) ?fr = Some cur" by auto
      note f = message_fields_Some [OF mf]
      have "map_of e ''context'' = Some (PyList []) \<and> message_shape e"
        unfolding message_shape_def using f cf(1) by (auto simp: cf(2) request_keys_def)
      then show ?thesis by simp
    qed
  qed
qed

lemma continuation_inv:
  assumes "cur = [] \<or> entry_inv threshold cur"
  shows "\<exists>cur'. continuation cur line = Inr cur' \<and> (cur' = [] \<or> entry_inv threshold cur')"
  using assms
  by (auto simp: continuation_def entry_inv_def request_shape_def message_shape_def
      request_keys_def)

lemma set_log_append:
  "(k', es) \<in> set (log_append k c logd) \<Longrightarrow> e \<in> set es \<Longrightarrow>
     e = c \<or> (\<exists>es'. (k', es') \<in> set logd \<and> e \<in> set es')"
  unfolding log_append_def by (induction logd) (auto split: if_splits)

lemma map_of_log_append:
  "map_of (log_append k c logd) k = Some (getdefault [] logd k @ [c])"
  by (simp add: log_append_def map_of_map_default getdefault_def split: option.splits)

lemma end_previous_inv:
  assumes "state_inv threshold st"
  shows "\<exists>logd. end_previous st = Inr logd \<and> state_inv threshold (logd, [])"
proof (cases "snd st = []")
  case True
  with assms show ?thesis
    by (cases st) (auto simp: end_previous_def state_inv_def)
next
  case False
  obtain lg cur where st: "st = (lg, cur)" by (cases st)
  from False assms st have inv: "entry_inv threshold cur" by (simp add: state_inv_def)
  then obtain k where k: "map_of cur ''level'' = Some (PyStr k)"
    by (auto simp: entry_inv_def request_shape_def message_shape_def)
  have ep: "end_previous st = Inr (log_append (PyStr k) cur lg)"
    using False by (simp add: end_previous_def st getitem_def k)
  have "state_inv threshold (log_append (PyStr k) cur lg, [])"
    unfolding state_inv_def
    using assms inv st by (auto simp: state_inv_def dest!: set_log_append)
  with ep show ?thesis by blast
qed

lemma step_inv:
  assumes "state_inv threshold st" and "step B threshold severity ignore_no_db st line = Inr st'"
  shows "state_inv threshold st'"
proof (cases "is_header line")
  case True
  from end_previous_inv [OF assms(1)] obtain logd where
    l: "end_previous st = Inr logd" "state_inv threshold (logd, [])" by blast
  with assms(2) True obtain e where
    e: "new_entry B threshold severity ignore_no_db line = Inr e" "st' = (logd, e)"
    by (auto simp: step_def bindE_eq_Inr)
  from new_entry_cases [OF e(1)] have "e = [] \<or> entry_inv threshold e"
    by (auto simp: entry_inv_def)
  with l(2) e(2) show ?thesis by (simp add: state_inv_def)
next
  case False
  from assms(1) have "snd st = [] \<or> entry_inv threshold (snd st)" by (simp add: state_inv_def)
  from continuation_inv [OF this, of line] obtain cur' where
    c: "continuation (snd st) line = Inr cur'" "cur' = [] \<or> entry_inv threshold cur'" by blast
  with assms(2) False have "st' = (fst st, cur')" by (auto simp: step_def)
  with c(2) assms(1) show ?thesis by (simp add: state_inv_def)
qed

lemma loop_inv:
  assumes "state_inv threshold st" and "loop B threshold severity ignore_no_db st lines = Inr st'"
  shows "state_inv threshold st'"
  using assms
proof (induction lines arbitrary: st)
  case Nil
  then show ?case by simp
next
  case (Cons line lines)
  from Cons.prems(2) obtain st1 where
    s: "step B threshold severity ignore_no_db st line = Inr st1"
       "loop B threshold severity ignore_no_db st1 lines = Inr st'"
    by (auto simp: bindE_eq_Inr)
  from Cons.IH [OF step_inv [OF Cons.prems(1) s(1)] s(2)] show ?case .
qed

lemma state_inv_init: "state_inv threshold ([], [])"
  by (simp add: state_inv_def)

lemma loop_append:
  "loop B threshold severity ignore_no_db st (xs @ ys) =
     bindE (loop B threshold severity ignore_no_db st xs)
       (\<lambda>st'. loop B threshold severity ignore_no_db st' ys)"
proof (induction xs arbitrary: st)
  case Nil
  then show ?case by simp
next
  case (Cons x xs)
  then show ?case
    by (cases "step B threshold severity ignore_no_db st x") simp_all
qed

subsection \<open>The request scenario\<close>

lemma is_header_access_line: "is_header access_line"
  by code_simp

lemma is_header_message_line: "is_header message_line"
  by code_simp

lemma new_entry_access_line: "new_entry std (4 / 100) 51 True access_line = Inr access_entry"
  by code_simp

lemma default_severity_eq: "default_severity = 51"
  by (simp add: default_severity_def LEVEL_MAPPING_def)

lemma read_log_access_alone:
  "read_log std (file_with [access_line]) ''odoo.log'' (Some (4 / 100)) None True = Inr []"
  by code_simp

lemma read_log_access_then_message:
  "read_log std (file_with [access_line, message_line]) ''odoo.log'' (Some (4 / 100)) None True =
     Inr [(PyStr ''REQUEST'', [access_entry])]"
  by code_simp

text \<open>
  Claim C2 does not hold as stated. The line of the scenario has 14 tokens, and the
  request branch reads the status at \<^verbatim>\<open>fragments[14]\<close>: the reader raises
  \<^verbatim>\<open>IndexError\<close>. And a request line alone in a file is still open at the end of
  the input, so it is not in the result.
\<close>

theorem spec_line_raises:
  "read_log std (file_with [spec_line]) ''odoo.log'' (Some (4 / 100)) None True = Inl IndexError \<and>
   read_log std (file_with [access_line]) ''odoo.log'' (Some (4 / 100)) None True = Inr []"
  by code_simp

text \<open>
  Claim C2, amended. The same request in the access-line layout, followed by one more
  header line and read with the threshold 0.04, gives exactly one entry, under the
  request key, with endpoint \<^verbatim>\<open>/\<close>, total time 0.05 and query count 5.
\<close>

theorem access_line_scenario:
  "\<exists>e. read_log std (file_with [access_line, message_line]) ''odoo.log'' (Some (4 / 100)) None True
         = Inr [(PyStr REQUEST_KEY, [e])] \<and>
       map_of e ''endpoint'' = Some (PyStr ''/'') \<and>
       map_of e ''total_time'' = Some (PyFloat (5 / 100)) \<and>
       map_of e ''query_count'' = Some (PyInt 5)"
proof -
  have "map_of access_entry ''endpoint'' = Some (PyStr ''/'') \<and>
        map_of access_entry ''total_time'' = Some (PyFloat (5 / 100)) \<and>
        map_of access_entry ''query_count'' = Some (PyInt 5)"
    by (simp add: access_entry_def)
  with read_log_access_then_message show ?thesis
    by (auto simp: REQUEST_KEY_def)
qed

subsection \<open>The severity filter and unknown level names\<close>

lemma getdefault_unknown_level:
  assumes "level \<notin> set LOG_LEVELS"
  shows "getdefault 0 LEVEL_MAPPING level = 0"
proof -
  from assms have "map_of LEVEL_MAPPING level = None"
    by (simp add: LOG_LEVELS_def map_of_eq_None_iff)
  then show ?thesis by (simp add: getdefault_def)
qed

text \<open>
  Claim C4 does not hold as stated. \<^verbatim>\<open>TEST\<close> is not a level name; with the minimum
  severity 20 (\<^verbatim>\<open>INFO\<close>) the header is skipped by the severity test, and with the
  minimum severity 0 the same header opens an entry.
\<close>

theorem unknown_level_skipped:
  "is_header unknown_level_line \<and>
   idx (str_split unknown_level_line) 3 = Inr ''TEST'' \<and>
   ''TEST'' \<notin> set LOG_LEVELS \<and>
   message_fields 20 ''TEST'' (str_split unknown_level_line) = None \<and>
   new_entry std 0 20 False unknown_level_line = Inr [] \<and>
   new_entry std 0 0 False unknown_level_line \<noteq> Inr []"
  by code_simp

text \<open>
  Claim C4, amended. A level token that is not a level name has rank 0. The header is
  skipped by the severity test exactly when the minimum severity is above 0, and
  passes it when the minimum severity is 0 or less.
\<close>

theorem unknown_level_has_rank_zero:
  assumes "is_header line"
    and "5 < length (str_split line)"
    and "str_split line ! 3 \<notin> set LOG_LEVELS"
    and "\<not> (ignore_no_db \<and> str_split line ! 4 = ''?'')"
  shows "(message_fields severity (str_split line ! 3) (str_split line) = None \<longleftrightarrow> 0 < severity) \<and>
         (if 0 < severity
          then new_entry B threshold severity ignore_no_db line = Inr []
          else new_entry B threshold severity ignore_no_db line =
                 common_fields B (str_split line ! 3) (str_split line ! 4)
                   (butlast (str_split line ! 5)) (str_split line)
                   (setitems [(''message'', PyStr (join '' '' (drop 6 (str_split line)))),
                              (''context'', PyList [])] []))"
proof -
  let ?fr = "str_split line"
  have r: "getdefault 0 LEVEL_MAPPING (?fr ! 3) = 0"
    by (rule getdefault_unknown_level [OF assms(3)])
  have "''INFO'' \<in> set LOG_LEVELS"
    by (simp add: LOG_LEVELS_def LEVEL_MAPPING_def)
  with assms(3) have ni: "?fr ! 3 \<noteq> ''INFO''" by auto
  have m: "message_fields severity (?fr ! 3) ?fr =
        (if 0 < severity then None
         else Some (setitems [(''message'', PyStr (join '' '' (drop 6 ?fr))),
                              (''context'', PyList [])] []))"
    by (simp add: message_fields_def r)
  have n: "new_entry B threshold severity ignore_no_db line =
        (case message_fields severity (?fr ! 3) ?fr of
           None \<Rightarrow> Inr []
         | Some cur \<Rightarrow> common_fields B (?fr ! 3) (?fr ! 4) (butlast (?fr ! 5)) ?fr cur)"
    using assms(2,4) ni by (auto simp: new_entry_def Let_def)
  show ?thesis
    by (simp add: n m)
qed

theorem unknown_level_has_rank_zero_witness:
  "is_header unknown_level_line \<and>
   5 < length (str_split unknown_level_line) \<and>
   str_split unknown_level_line ! 3 \<notin> set LOG_LEVELS \<and>
   \<not> (False \<and> str_split unknown_level_line ! 4 = ''?'') \<and>
   message_fields 20 (str_split unknown_level_line ! 3) (str_split unknown_level_line) = None \<and>
   new_entry std 0 20 False unknown_level_line = Inr []"
proof -
  have h: "is_header unknown_level_line" by code_simp
  have l: "5 < length (str_split unknown_level_line)" by code_simp
  have u: "str_split unknown_level_line ! 3 \<notin> set LOG_LEVELS" by code_simp
  have d: "\<not> (False \<and> str_split unknown_level_line ! 4 = ''?'')" by simp
  from unknown_level_has_rank_zero [OF h l u d, of 20 std 0] h l u show ?thesis
    by simp
qed

subsection \<open>Headers without a database\<close>

lemma continuation_empty [simp]: "continuation [] line = Inr []"
  by (simp add: continuation_def)

lemma end_previous_empty [simp]: "end_previous (logd, []) = Inr logd"
  by (simp add: end_previous_def)

lemma loop_no_entry_open:
  assumes "list_all (\<lambda>c. is_header c \<longrightarrow> new_entry B threshold severity ignore_no_db c = Inr [])
             following"
  shows "loop B threshold severity ignore_no_db (logd, []) following = Inr (logd, [])"
  using assms by (induction following) (simp_all add: step_def)

lemma loop_reaches_inv:
  assumes "loop B threshold severity ignore_no_db ([], []) before = Inr st"
  shows "state_inv threshold st"
  using loop_inv [OF state_inv_init assms] .

text \<open>
  Claim C8 does not hold as stated. The logger is read from \<^verbatim>\<open>fragments[5]\<close> before
  the database is tested: a header of five tokens whose database is \<^verbatim>\<open>?\<close> raises
  \<^verbatim>\<open>IndexError\<close> instead of being skipped.
\<close>

theorem short_nodb_line_raises:
  "is_header short_nodb_line \<and>
   idx (str_split short_nodb_line) 4 = Inr ''?'' \<and>
   step std (4 / 100) 20 True ([], []) short_nodb_line = Inl IndexError"
  by code_simp

text \<open>
  Claim C8, amended. With \<^verbatim>\<open>ignore_no_db\<close> set, a header of at least six tokens whose
  database is \<^verbatim>\<open>?\<close> ends the entry that was open and opens none. The lines that
  follow it up to the next retained header, that is, the lines that are not headers
  and the headers that are skipped themselves, change nothing: no entry is open after
  them and the filed entries are the same. The next header then starts from this
  state, so nothing of these lines reaches the entry it opens.
\<close>

theorem nodb_header_skipped:
  assumes "loop B threshold severity True ([], []) before = Inr st"
    and "is_header line"
    and "5 < length (str_split line)"
    and "str_split line ! 4 = ''?''"
    and "list_all (\<lambda>c. is_header c \<longrightarrow> new_entry B threshold severity True c = Inr []) following"
  shows "\<exists>logd. end_previous st = Inr logd \<and>
           new_entry B threshold severity True line = Inr [] \<and>
           step B threshold severity True st line = Inr (logd, []) \<and>
           loop B threshold severity True st (line # following) = Inr (logd, []) \<and>
           (is_header next_line \<longrightarrow>
              loop B threshold severity True st (line # following @ [next_line]) =
                bindE (new_entry B threshold severity True next_line) (\<lambda>cur. Inr (logd, cur)))"
proof -
  from end_previous_inv [OF loop_reaches_inv [OF assms(1)]] obtain logd where
    l: "end_previous st = Inr logd" by blast
  have n: "new_entry B threshold severity True line = Inr []"
    using assms(3,4) by (simp add: new_entry_def Let_def)
  have s: "step B threshold severity True st line = Inr (logd, [])"
    using assms(2) l n by (simp add: step_def)
  have f: "loop B threshold severity True (logd, []) following = Inr (logd, [])"
    by (rule loop_no_entry_open [OF assms(5)])
  have a: "loop B threshold severity True st (line # following) = Inr (logd, [])"
    using s f by simp
  have "loop B threshold severity True st (line # following @ [next_line]) =
          bindE (new_entry B threshold severity True next_line) (\<lambda>cur. Inr (logd, cur))"
    if "is_header next_line"
  proof -
    have "loop B threshold severity True st (line # following @ [next_line]) =
            loop B threshold severity True (logd, []) (following @ [next_line])"
      using s by simp
    also have "\<dots> = loop B threshold severity True (logd, []) [next_line]"
      by (simp add: loop_append f)
    also have "\<dots> = bindE (new_entry B threshold severity True next_line) (\<lambda>cur. Inr (logd, cur))"
      using that by (cases "new_entry B threshold severity True next_line") (simp_all add: step_def)
    finally show ?thesis .
  qed
  with l n s a show ?thesis by blast
qed

text \<open>
  A warning is open when the header without a database arrives. It is filed; the two
  traceback lines and the skipped debug header after it change nothing, and the
  request that follows is opened on its own.
\<close>

theorem nodb_header_skipped_witness:
  "loop std (4 / 100) 30 True ([], []) [message_line] = Inr ([], message_entry []) \<and>
   is_header nodb_line \<and>
   5 < length (str_split nodb_line) \<and>
   str_split nodb_line ! 4 = ''?'' \<and>
   list_all (\<lambda>c. is_header c \<longrightarrow> new_entry std (4 / 100) 30 True c = Inr [])
     [trace_line, debug_line, error_line] \<and>
   is_header debug_line \<and>
   is_header access_line \<and>
   loop std (4 / 100) 30 True ([], message_entry [])
       [nodb_line, trace_line, debug_line, error_line] =
     Inr ([(PyStr ''WARNING'', [message_entry []])], []) \<and>
   loop std (4 / 100) 30 True ([], message_entry [])
       (nodb_line # [trace_line, debug_line, error_line] @ [access_line]) =
     Inr ([(PyStr ''WARNING'', [message_entry []])], access_entry)"
proof -
  have b: "loop std (4 / 100) 30 True ([], []) [message_line] = Inr ([], message_entry [])"
    by code_simp
  have h: "is_header nodb_line" by code_simp
  have l: "5 < length (str_split nodb_line)" by code_simp
  have d: "str_split nodb_line ! 4 = ''?''" by code_simp
  have f: "list_all (\<lambda>c. is_header c \<longrightarrow> new_entry std (4 / 100) 30 True c = Inr [])
             [trace_line, debug_line, error_line]"
    by code_simp
  have hd: "is_header debug_line" by code_simp
  have ha: "is_header access_line" by (rule is_header_access_line)
  have na: "new_entry std (4 / 100) 30 True access_line = Inr access_entry" by code_simp
  have e: "end_previous ([], message_entry []) = Inr [(PyStr ''WARNING'', [message_entry []])]"
    by code_simp
  from nodb_header_skipped [OF b h l d f, of access_line] ha obtain logd where
    x: "end_previous ([], message_entry []) = Inr logd"
       "loop std (4 / 100) 30 True ([], message_entry [])
          (nodb_line # [trace_line, debug_line, error_line]) = Inr (logd, [])"
       "loop std (4 / 100) 30 True ([], message_entry [])
          (nodb_line # [trace_line, debug_line, error_line] @ [access_line]) =
        bindE (new_entry std (4 / 100) 30 True access_line) (\<lambda>cur. Inr (logd, cur))"
    by blast
  from x(1) e have ld: "logd = [(PyStr ''WARNING'', [message_entry []])]" by simp
  from x(3) have y: "loop std (4 / 100) 30 True ([], message_entry [])
          (nodb_line # [trace_line, debug_line, error_line] @ [access_line]) =
        Inr ([(PyStr ''WARNING'', [message_entry []])], access_entry)"
    unfolding ld na by simp
  from x(2) ld y b h l d f hd ha show ?thesis by blast
qed

subsection \<open>The end of the input\<close>

lemma rank_below_default: "getdefault 0 LEVEL_MAPPING level < default_severity"
  by (simp add: default_severity_eq getdefault_def LEVEL_MAPPING_def)

lemma new_entry_nothing:
  assumes "new_entry B 0 default_severity ignore_no_db line = Inr e"
  shows "e = []"
  using assms
  by (auto simp: new_entry_def bindE_eq_Inr Let_def request_fields_def message_fields_def
      rank_below_default split: if_splits)

lemma loop_nothing:
  assumes "loop B 0 default_severity ignore_no_db ([], []) lines = Inr st"
  shows "st = ([], [])"
  using assms
proof (induction lines)
  case Nil
  then show ?case by simp
next
  case (Cons line lines)
  from Cons.prems obtain st1 where
    s: "step B 0 default_severity ignore_no_db ([], []) line = Inr st1"
       "loop B 0 default_severity ignore_no_db st1 lines = Inr st"
    by (auto simp: bindE_eq_Inr)
  from s(1) have "st1 = ([], [])"
    by (auto simp: step_def end_previous_def bindE_eq_Inr dest: new_entry_nothing
        split: if_splits)
  with s(2) Cons.IH show ?case by simp
qed

lemma loop_continuations:
  assumes "list_all (\<lambda>c. \<not> is_header c) following"
    and "cur = [] \<or> entry_inv threshold cur"
  shows "\<exists>cur'. loop B threshold severity ignore_no_db (logd, cur) following = Inr (logd, cur')"
  using assms
proof (induction following arbitrary: cur)
  case Nil
  then show ?case by simp
next
  case (Cons c following)
  from continuation_inv [OF Cons.prems(2), of c] obtain cur1 where
    c: "continuation cur c = Inr cur1" "cur1 = [] \<or> entry_inv threshold cur1" by blast
  from Cons.prems(1) have "\<not> is_header c" "list_all (\<lambda>c. \<not> is_header c) following" by simp_all
  with Cons.IH [OF _ c(2)] c(1) show ?case by (simp add: step_def)
qed

text \<open>
  Claim C3. Let the last header of the file be \<open>line\<close>, read in the state \<open>st\<close> that the
  lines before it leave, and let it open an entry \<open>e\<close>. Whatever \<open>e\<close> is and whatever
  lines follow, \<^verbatim>\<open>read_log\<close> returns the dictionary as it is once the entry
  open in \<open>st\<close> has been filed: neither \<open>e\<close> nor the lines after the header reach the
  result.
\<close>

theorem last_entry_is_dropped:
  assumes "fs logfile = Some (before @ line # following)"
    and "loop B (or_zero threshold) (or_default severity) ignore_no_db ([], []) before = Inr st"
    and "is_header line"
    and "new_entry B (or_zero threshold) (or_default severity) ignore_no_db line = Inr e"
    and "list_all (\<lambda>c. \<not> is_header c) following"
  shows "\<exists>logd. end_previous st = Inr logd \<and>
           read_log B fs logfile threshold severity ignore_no_db = Inr logd"
proof (cases "falsy threshold \<and> severity = None")
  case True
  then have p: "or_zero threshold = 0" "or_default severity = default_severity"
    by (simp_all add: or_zero_def or_default_def)
  from assms(2) have "st = ([], [])"
    unfolding p by (rule loop_nothing)
  then have "end_previous st = Inr []" by (simp add: end_previous_def)
  moreover from True have "read_log B fs logfile threshold severity ignore_no_db = Inr []"
    by (simp add: read_log_def)
  ultimately show ?thesis by simp
next
  case False
  let ?T = "or_zero threshold" and ?S = "or_default severity"
  have inv: "state_inv ?T st" by (rule loop_reaches_inv [OF assms(2)])
  from end_previous_inv [OF inv] obtain logd where
    l: "end_previous st = Inr logd" by blast
  have s: "step B ?T ?S ignore_no_db st line = Inr (logd, e)"
    using assms(3,4) l by (simp add: step_def)
  from new_entry_cases [OF assms(4)] have "e = [] \<or> entry_inv ?T e"
    by (auto simp: entry_inv_def)
  from loop_continuations [OF assms(5) this] obtain cur' where
    c: "loop B ?T ?S ignore_no_db (logd, e) following = Inr (logd, cur')" by blast
  have "loop B ?T ?S ignore_no_db ([], []) (before @ line # following) = Inr (logd, cur')"
    by (simp add: loop_append assms(2) s c)
  with False assms(1) have "read_log B fs logfile threshold severity ignore_no_db = Inr logd"
    by (auto simp: read_log_def Let_def)
  with l show ?thesis by blast
qed

text \<open>
  A message with two lines of context is filed when the request line arrives; the
  request, the last header of the file, and the line after it are not in the result.
\<close>

theorem last_entry_is_dropped_witness:
  "file_with [message_line, trace_line, error_line, access_line, error_line] ''odoo.log'' =
     Some ([message_line, trace_line, error_line] @ access_line # [error_line]) \<and>
   loop std (or_zero (Some (4 / 100))) (or_default (Some 30)) True ([], [])
     [message_line, trace_line, error_line] = Inr ([], message_entry [trace_line, error_line]) \<and>
   is_header access_line \<and>
   new_entry std (or_zero (Some (4 / 100))) (or_default (Some 30)) True access_line = Inr access_entry \<and>
   list_all (\<lambda>c. \<not> is_header c) [error_line] \<and>
   read_log std (file_with [message_line, trace_line, error_line, access_line, error_line])
     ''odoo.log'' (Some (4 / 100)) (Some 30) True =
     Inr [(PyStr ''WARNING'', [message_entry [trace_line, error_line]])]"
proof -
  let ?fs = "file_with [message_line, trace_line, error_line, access_line, error_line]"
  have a: "?fs ''odoo.log'' = Some ([message_line, trace_line, error_line] @ access_line # [error_line])"
    by (simp add: file_with_def)
  have b: "loop std (or_zero (Some (4 / 100))) (or_default (Some 30)) True ([], [])
     [message_line, trace_line, error_line] = Inr ([], message_entry [trace_line, error_line])"
    by code_simp
  have h: "is_header access_line" by code_simp
  have n: "new_entry std (or_zero (Some (4 / 100))) (or_default (Some 30)) True access_line
             = Inr access_entry"
    by code_simp
  have f: "list_all (\<lambda>c. \<not> is_header c) [error_line]" by code_simp
  have e: "end_previous ([], message_entry [trace_line, error_line]) =
             Inr [(PyStr ''WARNING'', [message_entry [trace_line, error_line]])]"
    by code_simp
  from last_entry_is_dropped [of ?fs, OF a b h n f] obtain logd where
    x: "end_previous ([], message_entry [trace_line, error_line]) = Inr logd"
       "read_log std ?fs ''odoo.log'' (Some (4 / 100)) (Some 30) True = Inr logd"
    by blast
  from x(1) e have "logd = [(PyStr ''WARNING'', [message_entry [trace_line, error_line]])]"
    by simp
  with x(2) a b h n f show ?thesis by blast
qed

subsection \<open>Request lines without timing data\<close>

text \<open>
  What the test of line 64 does: on a request header (logger \<^verbatim>\<open>werkzeug\<close>, level
  \<^verbatim>\<open>INFO\<close>), when the threshold is unset or zero or the string \<open>line\<close> itself ends
  with \<^verbatim>\<open>-\<close>, no entry is opened: the entry that was open is filed, the state goes on
  with the empty dictionary, and nothing is raised.
\<close>

lemma request_without_timing_is_skipped:
  assumes "loop B (or_zero threshold) severity ignore_no_db ([], []) before = Inr st"
    and "is_header line"
    and "5 < length (str_split line)"
    and "butlast (str_split line ! 5) = ''werkzeug''"
    and "str_split line ! 3 = ''INFO''"
    and "falsy threshold \<or> suffix ''-'' line"
  shows "new_entry B (or_zero threshold) severity ignore_no_db line = Inr [] \<and>
         (\<exists>logd. end_previous st = Inr logd \<and>
            step B (or_zero threshold) severity ignore_no_db st line = Inr (logd, []))"
proof -
  from assms(6) have "or_zero threshold = 0 \<or> suffix ''-'' line"
    by (auto simp: or_zero_def)
  then have r: "request_fields B (or_zero threshold) line (str_split line) = Inr None"
    by (auto simp: request_fields_def)
  have n: "new_entry B (or_zero threshold) severity ignore_no_db line = Inr []"
    using assms(3,4,5) r by (simp add: new_entry_def Let_def)
  from end_previous_inv [OF loop_reaches_inv [OF assms(1)]] obtain logd where
    l: "end_previous st = Inr logd" by blast
  with n assms(2) have "step B (or_zero threshold) severity ignore_no_db st line = Inr (logd, [])"
    by (simp add: step_def)
  with n l show ?thesis by blast
qed

lemma unterminated_noperf_line_is_skipped:
  "suffix ''-'' noperf_last_line \<and>
   step std (4 / 100) 30 True ([], message_entry []) noperf_last_line =
     Inr ([(PyStr ''WARNING'', [message_entry []])], [])"
  by code_simp

text \<open>
  Claim C5. The lines that iterating over the file yields keep their line end, and
  line 64 tests the line as it is. A request line without timing data ends with
  \<^verbatim>\<open>- - -\<close> and a line feed: the test for the final \<^verbatim>\<open>-\<close> fails, the reader goes
  on to \<^verbatim>\<open>float("-")\<close> and raises \<^verbatim>\<open>ValueError\<close>, where the claim and the comment of
  line 65 say that the line is skipped. Only such a line at the very end of a file
  that has no final line feed is skipped.
\<close>

theorem terminated_noperf_line_raises:
  "is_header noperf_line \<and>
   \<not> suffix ''-'' noperf_line \<and>
   butlast (str_split noperf_line ! 5) = ''werkzeug'' \<and>
   str_split noperf_line ! 3 = ''INFO'' \<and>
   idx (str_split noperf_line) (- 1) = Inr ''-'' \<and>
   new_entry std (4 / 100) 30 True noperf_line = Inl ValueError \<and>
   read_log std (file_with [noperf_line, message_line]) ''odoo.log''
     (Some (4 / 100)) (Some 30) True = Inl ValueError"
  by code_simp

subsection \<open>The total time of a request\<close>

lemma new_entry_request:
  assumes "new_entry B threshold severity ignore_no_db line = Inr e"
    and "list_ex (\<lambda>k. map_of e k \<noteq> None) request_keys"
  obtains cur where
    "request_fields B threshold line (str_split line) = Inr (Some cur)"
    "common_fields B (str_split line ! 3) (str_split line ! 4) (butlast (str_split line ! 5))
       (str_split line) cur = Inr e"
    "5 < length (str_split line)"
proof -
  let ?fr = "str_split line"
  from assms(2) have ne: "e \<noteq> []" by (auto simp: request_keys_def)
  with assms(1) obtain r cur where
    r: "(if butlast (?fr ! 5) = ''werkzeug'' \<and> ?fr ! 3 = ''INFO''
         then request_fields B threshold line ?fr
         else Inr (message_fields severity (?fr ! 3) ?fr)) = Inr r"
    and cur: "r = Some cur"
      "common_fields B (?fr ! 3) (?fr ! 4) (butlast (?fr ! 5)) ?fr cur = Inr e"
    and len: "5 < length ?fr"
    by (auto simp: new_entry_def bindE_eq_Inr Let_def split: if_splits option.splits)
  note cf = common_fields_Inr [OF cur(2)]
  have "butlast (?fr ! 5) = ''werkzeug'' \<and> ?fr ! 3 = ''INFO''"
  proof (rule ccontr)
    assume "\<not> ?thesis"
    with r cur have "message_fields severity (?fr ! 3) ?fr = Some cur" by auto
    from message_fields_Some(3) [OF this] have "list_all (\<lambda>k. map_of e k = None) request_keys"
      by (simp add: request_keys_def cf(2))
    with assms(2) show False by (auto simp: list_all_iff list_ex_iff)
  qed
  with r cur have "request_fields B threshold line ?fr = Inr (Some cur)" by simp
  from that [OF this cur(2) len] show ?thesis .
qed

lemma retained_total_is_sum:
  assumes "new_entry B threshold severity ignore_no_db line = Inr e"
    and "map_of e ''total_time'' = Some v"
  shows "\<exists>f1 f2 ot sq.
           idx (str_split line) (- 1) = Inr f1 \<and> to_float B f1 = Inr ot \<and>
           idx (str_split line) (- 2) = Inr f2 \<and> to_float B f2 = Inr sq \<and>
           map_of e ''other_time'' = Some (PyFloat ot) \<and>
           map_of e ''sql_time'' = Some (PyFloat sq) \<and>
           v = PyFloat (ot + sq) \<and> threshold \<le> ot + sq"
proof -
  let ?fr = "str_split line"
  from assms(2) have "list_ex (\<lambda>k. map_of e k \<noteq> None) request_keys"
    by (simp add: request_keys_def)
  from new_entry_request [OF assms(1) this] obtain cur where
    rf: "request_fields B threshold line ?fr = Inr (Some cur)"
    and cf: "common_fields B (?fr ! 3) (?fr ! 4) (butlast (?fr ! 5)) ?fr cur = Inr e"
    and len: "5 < length ?fr"
    by blast
  from request_fields_Some(1) [OF rf] obtain ot sq where
    f: "to_float B (?fr ! (length ?fr - 1)) = Inr ot"
       "to_float B (?fr ! (length ?fr - 2)) = Inr sq"
       "map_of cur ''other_time'' = Some (PyFloat ot)"
       "map_of cur ''sql_time'' = Some (PyFloat sq)"
       "map_of cur ''total_time'' = Some (PyFloat (ot + sq))"
       "threshold \<le> ot + sq"
    by blast
  have i: "idx ?fr (- 1) = Inr (?fr ! (length ?fr - 1))" "idx ?fr (- 2) = Inr (?fr ! (length ?fr - 2))"
    using len by auto
  have k: "map_of e ''other_time'' = map_of cur ''other_time''"
    "map_of e ''sql_time'' = map_of cur ''sql_time''"
    "map_of e ''total_time'' = map_of cur ''total_time''"
    by (simp_all add: common_fields_Inr(2) [OF cf])
  from assms(2) k f have "v = PyFloat (ot + sq)" by simp
  with i f k show ?thesis by auto
qed

lemma read_log_inv:
  assumes "read_log B fs logfile threshold severity ignore_no_db = Inr logd"
    and "(k, es) \<in> set logd" and "e \<in> set es"
  shows "entry_inv (or_zero threshold) e"
proof (cases "falsy threshold \<and> severity = None")
  case True
  with assms(1) have "logd = []" by (simp add: read_log_def)
  with assms(2) show ?thesis by simp
next
  case False
  with assms(1) obtain lines st where
    "loop B (or_zero threshold) (or_default severity) ignore_no_db ([], []) lines = Inr st"
    "logd = fst st"
    by (auto simp: read_log_def Let_def bindE_eq_Inr split: option.splits)
  with loop_reaches_inv [OF this(1)] assms(2,3) show ?thesis
    by (auto simp: state_inv_def)
qed

lemma read_log_total_is_sum:
  assumes "read_log B fs logfile threshold severity ignore_no_db = Inr logd"
    and "(k, es) \<in> set logd" and "e \<in> set es"
    and "map_of e ''total_time'' = Some v"
  shows "\<exists>ot sq. map_of e ''other_time'' = Some (PyFloat ot) \<and>
                 map_of e ''sql_time'' = Some (PyFloat sq) \<and>
                 v = PyFloat (ot + sq) \<and> or_zero threshold \<le> ot + sq"
  using read_log_inv [OF assms(1,2,3)] assms(4)
  by (auto simp: entry_inv_def request_shape_def message_shape_def request_keys_def)

lemma request_below_threshold_skipped:
  assumes "5 < length (str_split line)"
    and "butlast (str_split line ! 5) = ''werkzeug''"
    and "str_split line ! 3 = ''INFO''"
    and "idx (str_split line) (- 1) = Inr f1" and "to_float B f1 = Inr ot"
    and "idx (str_split line) (- 2) = Inr f2" and "to_float B f2 = Inr sq"
    and "ot + sq < threshold"
  shows "new_entry B threshold severity ignore_no_db line = Inr []"
proof -
  have "request_fields B threshold line (str_split line) = Inr None"
    unfolding request_fields_def using assms(4-8) by (simp add: Let_def)
  with assms(1-3) show ?thesis by (simp add: new_entry_def Let_def)
qed

text \<open>
  Claim C6. (1) An entry that a header line opens and that has a total time is a
  request entry: the total is the sum of the two floats parsed from the last and the
  last but one token, which are its other time and its SQL time, and it is not below
  the threshold. (2) In the dictionary \<^verbatim>\<open>read_log\<close> returns, every entry that has a
  total time has the two components, and the total is their sum. (3) A request line
  whose two times add up to less than the threshold opens no entry.
\<close>

theorem total_time_is_sum_of_components:
  "(new_entry B threshold severity ignore_no_db line = Inr e \<and>
    map_of e ''total_time'' = Some v \<longrightarrow>
      (\<exists>f1 f2 ot sq.
         idx (str_split line) (- 1) = Inr f1 \<and> to_float B f1 = Inr ot \<and>
         idx (str_split line) (- 2) = Inr f2 \<and> to_float B f2 = Inr sq \<and>
         map_of e ''other_time'' = Some (PyFloat ot) \<and>
         map_of e ''sql_time'' = Some (PyFloat sq) \<and>
         v = PyFloat (ot + sq) \<and> threshold \<le> ot + sq)) \<and>
   (read_log B fs logfile min_total_time min_severity ignore_no_db = Inr logd \<and>
    (k, es) \<in> set logd \<and> e' \<in> set es \<and> map_of e' ''total_time'' = Some v' \<longrightarrow>
      (\<exists>ot sq. map_of e' ''other_time'' = Some (PyFloat ot) \<and>
               map_of e' ''sql_time'' = Some (PyFloat sq) \<and>
               v' = PyFloat (ot + sq) \<and> or_zero min_total_time \<le> ot + sq)) \<and>
   (5 < length (str_split line') \<and>
    butlast (str_split line' ! 5) = ''werkzeug'' \<and> str_split line' ! 3 = ''INFO'' \<and>
    idx (str_split line') (- 1) = Inr g1 \<and> to_float B g1 = Inr x \<and>
    idx (str_split line') (- 2) = Inr g2 \<and> to_float B g2 = Inr y \<and>
    x + y < threshold \<longrightarrow>
      new_entry B threshold severity ignore_no_db line' = Inr [])"
  using retained_total_is_sum [of B threshold severity ignore_no_db line e v]
    read_log_total_is_sum [of B fs logfile min_total_time min_severity ignore_no_db logd k es e' v']
    request_below_threshold_skipped [of line' g1 B x g2 y threshold severity ignore_no_db]
  by blast

theorem total_time_is_sum_of_components_witness:
  "new_entry std (4 / 100) 30 True access_line = Inr access_entry \<and>
   map_of access_entry ''total_time'' = Some (PyFloat (5 / 100)) \<and>
   (\<exists>f1 f2 ot sq.
      idx (str_split access_line) (- 1) = Inr f1 \<and> to_float std f1 = Inr ot \<and>
      idx (str_split access_line) (- 2) = Inr f2 \<and> to_float std f2 = Inr sq \<and>
      map_of access_entry ''other_time'' = Some (PyFloat ot) \<and>
      map_of access_entry ''sql_time'' = Some (PyFloat sq) \<and>
      PyFloat (5 / 100) = PyFloat (ot + sq) \<and> 4 / 100 \<le> ot + sq) \<and>
   read_log std (file_with [access_line, message_line]) ''odoo.log'' (Some (4 / 100)) None True
     = Inr [(PyStr ''REQUEST'', [access_entry])] \<and>
   (PyStr ''REQUEST'', [access_entry]) \<in> set [(PyStr ''REQUEST'', [access_entry])] \<and>
   access_entry \<in> set [access_entry] \<and>
   (\<exists>ot sq. map_of access_entry ''other_time'' = Some (PyFloat ot) \<and>
            map_of access_entry ''sql_time'' = Some (PyFloat sq) \<and>
            PyFloat (5 / 100) = PyFloat (ot + sq) \<and> or_zero (Some (4 / 100)) \<le> ot + sq) \<and>
   5 < length (str_split access_line) \<and>
   butlast (str_split access_line ! 5) = ''werkzeug'' \<and> str_split access_line ! 3 = ''INFO'' \<and>
   idx (str_split access_line) (- 1) = Inr ''0.040'' \<and> to_float std ''0.040'' = Inr (4 / 100) \<and>
   idx (str_split access_line) (- 2) = Inr ''0.010'' \<and> to_float std ''0.010'' = Inr (1 / 100) \<and>
   (4 / 100 + 1 / 100 :: real) < 1 \<and>
   new_entry std 1 30 True access_line = Inr []"
proof -
  have n: "new_entry std (4 / 100) 30 True access_line = Inr access_entry" by code_simp
  have t: "map_of access_entry ''total_time'' = Some (PyFloat (5 / 100))"
    by (simp add: access_entry_def)
  have r: "read_log std (file_with [access_line, message_line]) ''odoo.log'' (Some (4 / 100)) None True
     = Inr [(PyStr ''REQUEST'', [access_entry])]"
    by (rule read_log_access_then_message)
  have m: "(PyStr ''REQUEST'', [access_entry]) \<in> set [(PyStr ''REQUEST'', [access_entry])]"
    "access_entry \<in> set [access_entry]"
    by simp_all
  have l: "5 < length (str_split access_line)" by code_simp
  have w: "butlast (str_split access_line ! 5) = ''werkzeug''" by code_simp
  have i: "str_split access_line ! 3 = ''INFO''" by code_simp
  have f1: "idx (str_split access_line) (- 1) = Inr ''0.040''" by code_simp
  have f2: "idx (str_split access_line) (- 2) = Inr ''0.010''" by code_simp
  have p1: "to_float std ''0.040'' = Inr (4 / 100)" by code_simp
  have p2: "to_float std ''0.010'' = Inr (1 / 100)" by code_simp
  have lt: "(4 / 100 + 1 / 100 :: real) < 1" by simp
  note inst = total_time_is_sum_of_components [of std "4 / 100" 30 True access_line access_entry
      "PyFloat (5 / 100)" "file_with [access_line, message_line]" "''odoo.log''"
      "Some (4 / 100)" None "[(PyStr ''REQUEST'', [access_entry])]" "PyStr ''REQUEST''"
      "[access_entry]" access_entry "PyFloat (5 / 100)"]
  note inst3 = total_time_is_sum_of_components [of std 1 30 True _ _ _ _ _ _ _ _ _ _ _ _
      access_line "''0.040''" "4 / 100" "''0.010''" "1 / 100"]
  from inst n t have a: "\<exists>f1 f2 ot sq.
      idx (str_split access_line) (- 1) = Inr f1 \<and> to_float std f1 = Inr ot \<and>
      idx (str_split access_line) (- 2) = Inr f2 \<and> to_float std f2 = Inr sq \<and>
      map_of access_entry ''other_time'' = Some (PyFloat ot) \<and>
      map_of access_entry ''sql_time'' = Some (PyFloat sq) \<and>
      PyFloat (5 / 100) = PyFloat (ot + sq) \<and> 4 / 100 \<le> ot + sq"
    by blast
  from inst r m t have b: "\<exists>ot sq. map_of access_entry ''other_time'' = Some (PyFloat ot) \<and>
            map_of access_entry ''sql_time'' = Some (PyFloat sq) \<and>
            PyFloat (5 / 100) = PyFloat (ot + sq) \<and> or_zero (Some (4 / 100)) \<le> ot + sq"
    by blast
  from inst3 l w i f1 f2 p1 p2 lt have c: "new_entry std 1 30 True access_line = Inr []"
    by blast
  from n t a r m b l w i f1 f2 p1 p2 lt c show ?thesis by blast
qed

subsection \<open>Continuation lines\<close>

lemma continuation_step:
  assumes "loop B threshold severity ignore_no_db ([], []) before = Inr (logd, cur)"
    and "\<not> is_header line"
  shows "case map_of cur ''context'' of
           None \<Rightarrow> step B threshold severity ignore_no_db (logd, cur) line = Inr (logd, cur)
         | Some v \<Rightarrow>
             (\<exists>ctx. v = PyList ctx \<and>
                step B threshold severity ignore_no_db (logd, cur) line =
                  Inr (logd, setitem ''context'' (PyList (ctx @ [line])) cur))"
    and "cur = [] \<or> list_ex (\<lambda>k. map_of cur k \<noteq> None) request_keys \<Longrightarrow>
         map_of cur ''context'' = None"
proof -
  from loop_reaches_inv [OF assms(1)] have inv: "cur = [] \<or> entry_inv threshold cur"
    by (simp add: state_inv_def)
  then show "case map_of cur ''context'' of
           None \<Rightarrow> step B threshold severity ignore_no_db (logd, cur) line = Inr (logd, cur)
         | Some v \<Rightarrow>
             (\<exists>ctx. v = PyList ctx \<and>
                step B threshold severity ignore_no_db (logd, cur) line =
                  Inr (logd, setitem ''context'' (PyList (ctx @ [line])) cur))"
    using assms(2)
    by (auto simp: step_def continuation_def entry_inv_def request_shape_def message_shape_def
        split: option.splits)
  show "map_of cur ''context'' = None"
    if "cur = [] \<or> list_ex (\<lambda>k. map_of cur k \<noteq> None) request_keys"
    using that inv
    by (auto simp: entry_inv_def request_shape_def message_shape_def list_all_iff list_ex_iff)
qed

lemma request_entry_has_no_context:
  assumes "read_log B fs logfile min_total_time min_severity ignore_no_db = Inr lg"
    and "(k, es) \<in> set lg" and "e \<in> set es"
    and "list_ex (\<lambda>k. map_of e k \<noteq> None) request_keys"
  shows "map_of e ''context'' = None"
  using read_log_inv [OF assms(1,2,3)] assms(4)
  by (auto simp: entry_inv_def request_shape_def message_shape_def list_all_iff list_ex_iff)

lemma loop_context:
  assumes "list_all (\<lambda>c. \<not> is_header c) following"
    and "map_of m ''context'' = Some (PyList ctx)"
  shows "loop B threshold severity ignore_no_db (logd, m) following =
           Inr (logd, setitem ''context'' (PyList (ctx @ following)) m)"
  using assms
proof (induction following arbitrary: m ctx)
  case Nil
  then show ?case by (simp add: setitem_def update_triv)
next
  case (Cons c following)
  let ?m1 = "setitem ''context'' (PyList (ctx @ [c])) m"
  from Cons.prems have s: "step B threshold severity ignore_no_db (logd, m) c = Inr (logd, ?m1)"
    by (simp add: step_def continuation_def)
  have "map_of ?m1 ''context'' = Some (PyList (ctx @ [c]))" by simp
  from Cons.IH [OF _ this] Cons.prems(1)
  have "loop B threshold severity ignore_no_db (logd, ?m1) following =
          Inr (logd, setitem ''context'' (PyList ((ctx @ [c]) @ following)) ?m1)"
    by simp
  with s show ?case by (simp add: setitem_def)
qed

lemma message_with_context_is_filed:
  assumes "loop B threshold severity ignore_no_db ([], []) before = Inr st"
    and "is_header line"
    and "new_entry B threshold severity ignore_no_db line = Inr m"
    and "map_of m ''context'' \<noteq> None"
    and "list_all (\<lambda>c. \<not> is_header c) following"
    and "is_header next_line"
  shows "\<exists>logd k.
           end_previous st = Inr logd \<and>
           map_of m ''context'' = Some (PyList []) \<and>
           map_of m ''level'' = Some (PyStr k) \<and>
           loop B threshold severity ignore_no_db st (line # following) =
             Inr (logd, setitem ''context'' (PyList following) m) \<and>
           step B threshold severity ignore_no_db
               (logd, setitem ''context'' (PyList following) m) next_line =
             bindE (new_entry B threshold severity ignore_no_db next_line)
               (\<lambda>cur. Inr (log_append (PyStr k) (setitem ''context'' (PyList following) m) logd,
                            cur))"
proof -
  let ?m' = "setitem ''context'' (PyList following) m"
  from end_previous_inv [OF loop_reaches_inv [OF assms(1)]] obtain logd where
    l: "end_previous st = Inr logd" by blast
  from new_entry_cases [OF assms(3)] assms(4) have
    c: "map_of m ''context'' = Some (PyList [])" and ms: "message_shape m"
    by (auto simp: request_shape_def)
  from ms obtain k where k: "map_of m ''level'' = Some (PyStr k)"
    by (auto simp: message_shape_def)
  have s: "step B threshold severity ignore_no_db st line = Inr (logd, m)"
    using assms(2,3) l by (simp add: step_def)
  have lp: "loop B threshold severity ignore_no_db st (line # following) = Inr (logd, ?m')"
    using s loop_context [OF assms(5) c, of B threshold severity ignore_no_db logd] by simp
  have "end_previous (logd, ?m') = Inr (log_append (PyStr k) ?m' logd)"
    by (simp add: end_previous_def getitem_def k)
  then have "step B threshold severity ignore_no_db (logd, ?m') next_line =
             bindE (new_entry B threshold severity ignore_no_db next_line)
               (\<lambda>cur. Inr (log_append (PyStr k) ?m' logd, cur))"
    using assms(6) by (simp add: step_def)
  with l c k lp show ?thesis by blast
qed

lemma message_header_opens_context:
  assumes "new_entry B threshold severity ignore_no_db line = Inr m"
    and "m \<noteq> []"
    and "\<not> (butlast (str_split line ! 5) = ''werkzeug'' \<and> str_split line ! 3 = ''INFO'')"
  shows "map_of m ''context'' = Some (PyList [])"
    and "list_all (\<lambda>k. map_of m k = None) request_keys"
proof -
  let ?fr = "str_split line"
  from assms(1,2) obtain r cur where
    r: "(if butlast (?fr ! 5) = ''werkzeug'' \<and> ?fr ! 3 = ''INFO''
         then request_fields B threshold line ?fr
         else Inr (message_fields severity (?fr ! 3) ?fr)) = Inr r"
    and cur: "r = Some cur"
      "common_fields B (?fr ! 3) (?fr ! 4) (butlast (?fr ! 5)) ?fr cur = Inr m"
    by (auto simp: new_entry_def bindE_eq_Inr Let_def split: if_splits option.splits)
  from r cur(1) assms(3) have mf: "message_fields severity (?fr ! 3) ?fr = Some cur"
    by auto
  note f = message_fields_Some [OF mf]
  note cf = common_fields_Inr [OF cur(2)]
  show "map_of m ''context'' = Some (PyList [])"
    using f(1) by (simp add: cf(2))
  show "list_all (\<lambda>k. map_of m k = None) request_keys"
    using f(3) by (simp add: request_keys_def cf(2))
qed

lemma open_entry_has_context:
  assumes "loop B threshold severity ignore_no_db ([], []) before = Inr (logd, cur)"
    and "cur \<noteq> []"
    and "\<not> list_ex (\<lambda>k. map_of cur k \<noteq> None) request_keys"
  shows "\<exists>ctx. map_of cur ''context'' = Some (PyList ctx)"
proof -
  from loop_reaches_inv [OF assms(1)] assms(2) have "entry_inv threshold cur"
    by (simp add: state_inv_def)
  moreover have "\<not> request_shape threshold cur"
    using assms(3) by (auto simp: request_shape_def request_keys_def)
  ultimately show ?thesis
    by (auto simp: entry_inv_def message_shape_def)
qed

text \<open>
  Claim C7. (1) In every state the reader can reach, a line that is not a header is
  appended to the context of the open entry when that entry has a context, and changes
  nothing otherwise; the dictionary of filed entries is never touched. When no entry is
  open, or the open entry has a request field, there is no context; an open entry
  without request fields, a message entry, always has one. (2) No entry with a request
  field in the result of \<^verbatim>\<open>read_log\<close> has a context. (3) A header that opens an
  entry with a context, followed by lines that are not headers, leaves the entry open
  with exactly these lines as its context, in their order; the next header files it
  under its level before its own entry is built. (4) Every entry opened by a header
  that is not a request line, whatever its level, starts with the empty context and
  has no request field.
\<close>

theorem continuation_lines_go_to_messages:
  "(loop B threshold severity ignore_no_db ([], []) before = Inr (logd, cur) \<and>
    \<not> is_header line \<longrightarrow>
      (case map_of cur ''context'' of
         None \<Rightarrow> step B threshold severity ignore_no_db (logd, cur) line = Inr (logd, cur)
       | Some v \<Rightarrow>
           (\<exists>ctx. v = PyList ctx \<and>
              step B threshold severity ignore_no_db (logd, cur) line =
                Inr (logd, setitem ''context'' (PyList (ctx @ [line])) cur))) \<and>
      (cur = [] \<or> list_ex (\<lambda>k. map_of cur k \<noteq> None) request_keys \<longrightarrow>
         map_of cur ''context'' = None) \<and>
      (cur \<noteq> [] \<and> \<not> list_ex (\<lambda>k. map_of cur k \<noteq> None) request_keys \<longrightarrow>
         (\<exists>ctx. map_of cur ''context'' = Some (PyList ctx)))) \<and>
   (read_log B fs logfile min_total_time min_severity ignore_no_db = Inr lg \<and>
    (k, es) \<in> set lg \<and> e \<in> set es \<and> list_ex (\<lambda>k. map_of e k \<noteq> None) request_keys \<longrightarrow>
      map_of e ''context'' = None) \<and>
   (loop B threshold severity ignore_no_db ([], []) before' = Inr st \<and>
    is_header header \<and>
    new_entry B threshold severity ignore_no_db header = Inr m \<and>
    map_of m ''context'' \<noteq> None \<and>
    list_all (\<lambda>c. \<not> is_header c) following \<and>
    is_header next_line \<longrightarrow>
      (\<exists>logd' lvl.
         end_previous st = Inr logd' \<and>
         map_of m ''context'' = Some (PyList []) \<and>
         map_of m ''level'' = Some (PyStr lvl) \<and>
         loop B threshold severity ignore_no_db st (header # following) =
           Inr (logd', setitem ''context'' (PyList following) m) \<and>
         step B threshold severity ignore_no_db
             (logd', setitem ''context'' (PyList following) m) next_line =
           bindE (new_entry B threshold severity ignore_no_db next_line)
             (\<lambda>cur. Inr (log_append (PyStr lvl) (setitem ''context'' (PyList following) m) logd',
                          cur)))) \<and>
   (new_entry B threshold severity ignore_no_db hdr = Inr opened \<and>
    opened \<noteq> [] \<and>
    \<not> (butlast (str_split hdr ! 5) = ''werkzeug'' \<and> str_split hdr ! 3 = ''INFO'') \<longrightarrow>
      map_of opened ''context'' = Some (PyList []) \<and>
      list_all (\<lambda>k. map_of opened k = None) request_keys)"
proof -
  have p1: "case map_of cur ''context'' of
         None \<Rightarrow> step B threshold severity ignore_no_db (logd, cur) line = Inr (logd, cur)
       | Some v \<Rightarrow>
           (\<exists>ctx. v = PyList ctx \<and>
              step B threshold severity ignore_no_db (logd, cur) line =
                Inr (logd, setitem ''context'' (PyList (ctx @ [line])) cur))"
    if "loop B threshold severity ignore_no_db ([], []) before = Inr (logd, cur)"
      and "\<not> is_header line"
    using that by (rule continuation_step(1))
  have p2: "map_of cur ''context'' = None"
    if "loop B threshold severity ignore_no_db ([], []) before = Inr (logd, cur)"
      and "\<not> is_header line"
      and "cur = [] \<or> list_ex (\<lambda>k. map_of cur k \<noteq> None) request_keys"
    using that by (rule continuation_step(2))
  have p3: "\<exists>ctx. map_of cur ''context'' = Some (PyList ctx)"
    if "loop B threshold severity ignore_no_db ([], []) before = Inr (logd, cur)"
      and "cur \<noteq> []" and "\<not> list_ex (\<lambda>k. map_of cur k \<noteq> None) request_keys"
    using that by (rule open_entry_has_context)
  have p4: "map_of e ''context'' = None"
    if "read_log B fs logfile min_total_time min_severity ignore_no_db = Inr lg"
      and "(k, es) \<in> set lg" and "e \<in> set es"
      and "list_ex (\<lambda>k. map_of e k \<noteq> None) request_keys"
    using that by (rule request_entry_has_no_context)
  have p5: "\<exists>logd' lvl.
         end_previous st = Inr logd' \<and>
         map_of m ''context'' = Some (PyList []) \<and>
         map_of m ''level'' = Some (PyStr lvl) \<and>
         loop B threshold severity ignore_no_db st (header # following) =
           Inr (logd', setitem ''context'' (PyList following) m) \<and>
         step B threshold severity ignore_no_db
             (logd', setitem ''context'' (PyList following) m) next_line =
           bindE (new_entry B threshold severity ignore_no_db next_line)
             (\<lambda>cur. Inr (log_append (PyStr lvl) (setitem ''context'' (PyList following) m) logd',
                          cur))"
    if "loop B threshold severity ignore_no_db ([], []) before' = Inr st"
      and "is_header header"
      and "new_entry B threshold severity ignore_no_db header = Inr m"
      and "map_of m ''context'' \<noteq> None"
      and "list_all (\<lambda>c. \<not> is_header c) following"
      and "is_header next_line"
    using that by (rule message_with_context_is_filed)
  have p6: "map_of opened ''context'' = Some (PyList []) \<and>
            list_all (\<lambda>k. map_of opened k = None) request_keys"
    if "new_entry B threshold severity ignore_no_db hdr = Inr opened"
      and "opened \<noteq> []"
      and "\<not> (butlast (str_split hdr ! 5) = ''werkzeug'' \<and> str_split hdr ! 3 = ''INFO'')"
    using message_header_opens_context [OF that] by simp
  from p1 p2 p3 have a: "loop B threshold severity ignore_no_db ([], []) before = Inr (logd, cur) \<and>
    \<not> is_header line \<longrightarrow>
      (case map_of cur ''context'' of
         None \<Rightarrow> step B threshold severity ignore_no_db (logd, cur) line = Inr (logd, cur)
       | Some v \<Rightarrow>
           (\<exists>ctx. v = PyList ctx \<and>
              step B threshold severity ignore_no_db (logd, cur) line =
                Inr (logd, setitem ''context'' (PyList (ctx @ [line])) cur))) \<and>
      (cur = [] \<or> list_ex (\<lambda>k. map_of cur k \<noteq> None) request_keys \<longrightarrow>
         map_of cur ''context'' = None) \<and>
      (cur \<noteq> [] \<and> \<not> list_ex (\<lambda>k. map_of cur k \<noteq> None) request_keys \<longrightarrow>
         (\<exists>ctx. map_of cur ''context'' = Some (PyList ctx)))"
    by (intro impI conjI; (elim conjE)?) assumption+
  from p4 have b: "read_log B fs logfile min_total_time min_severity ignore_no_db = Inr lg \<and>
    (k, es) \<in> set lg \<and> e \<in> set es \<and> list_ex (\<lambda>k. map_of e k \<noteq> None) request_keys \<longrightarrow>
      map_of e ''context'' = None"
    by (intro impI; (elim conjE)?) assumption
  from p5 have c: "loop B threshold severity ignore_no_db ([], []) before' = Inr st \<and>
    is_header header \<and>
    new_entry B threshold severity ignore_no_db header = Inr m \<and>
    map_of m ''context'' \<noteq> None \<and>
    list_all (\<lambda>c. \<not> is_header c) following \<and>
    is_header next_line \<longrightarrow>
      (\<exists>logd' lvl.
         end_previous st = Inr logd' \<and>
         map_of m ''context'' = Some (PyList []) \<and>
         map_of m ''level'' = Some (PyStr lvl) \<and>
         loop B threshold severity ignore_no_db st (header # following) =
           Inr (logd', setitem ''context'' (PyList following) m) \<and>
         step B threshold severity ignore_no_db
             (logd', setitem ''context'' (PyList following) m) next_line =
           bindE (new_entry B threshold severity ignore_no_db next_line)
             (\<lambda>cur. Inr (log_append (PyStr lvl) (setitem ''context'' (PyList following) m) logd',
                          cur)))"
    by (intro impI; (elim conjE)?) assumption
  from p6 have d: "new_entry B threshold severity ignore_no_db hdr = Inr opened \<and>
    opened \<noteq> [] \<and>
    \<not> (butlast (str_split hdr ! 5) = ''werkzeug'' \<and> str_split hdr ! 3 = ''INFO'') \<longrightarrow>
      map_of opened ''context'' = Some (PyList []) \<and>
      list_all (\<lambda>k. map_of opened k = None) request_keys"
    by (intro impI; (elim conjE)?) assumption
  from a b c d show ?thesis by (intro conjI)
qed

text \<open>
  The scenario of the specification: a message header, two lines that are not headers,
  and a request header. The message is filed with exactly the two lines as its
  context. A line after the request header is dropped. An error message starts with
  the empty context as the warning does.
\<close>

theorem continuation_lines_go_to_messages_witness:
  "loop std (4 / 100) 30 True ([], []) [message_line] = Inr ([], message_entry []) \<and>
   \<not> is_header trace_line \<and>
   step std (4 / 100) 30 True ([], message_entry []) trace_line =
     Inr ([], message_entry [trace_line]) \<and>
   message_entry [] \<noteq> [] \<and>
   \<not> list_ex (\<lambda>k. map_of (message_entry []) k \<noteq> None) request_keys \<and>
   (\<exists>ctx. map_of (message_entry []) ''context'' = Some (PyList ctx)) \<and>
   loop std (4 / 100) 30 True ([], []) [access_line] = Inr ([], access_entry) \<and>
   list_ex (\<lambda>k. map_of access_entry k \<noteq> None) request_keys \<and>
   map_of access_entry ''context'' = None \<and>
   step std (4 / 100) 30 True ([], access_entry) trace_line = Inr ([], access_entry) \<and>
   read_log std (file_with [access_line, message_line]) ''odoo.log'' (Some (4 / 100)) None True
     = Inr [(PyStr ''REQUEST'', [access_entry])] \<and>
   (PyStr ''REQUEST'', [access_entry]) \<in> set [(PyStr ''REQUEST'', [access_entry])] \<and>
   access_entry \<in> set [access_entry] \<and>
   loop std (4 / 100) 30 True ([], []) [] = Inr ([], []) \<and>
   is_header message_line \<and>
   new_entry std (4 / 100) 30 True message_line = Inr (message_entry []) \<and>
   map_of (message_entry []) ''context'' \<noteq> None \<and>
   list_all (\<lambda>c. \<not> is_header c) [trace_line, error_line] \<and>
   is_header access_line \<and>
   loop std (4 / 100) 30 True ([], []) [message_line, trace_line, error_line] =
     Inr ([], message_entry [trace_line, error_line]) \<and>
   step std (4 / 100) 30 True ([], message_entry [trace_line, error_line]) access_line =
     Inr ([(PyStr ''WARNING'', [message_entry [trace_line, error_line]])], access_entry) \<and>
   new_entry std (4 / 100) 30 True error_message_line = Inr (error_entry []) \<and>
   error_entry [] \<noteq> [] \<and>
   \<not> (butlast (str_split error_message_line ! 5) = ''werkzeug'' \<and>
      str_split error_message_line ! 3 = ''INFO'') \<and>
   map_of (error_entry []) ''context'' = Some (PyList []) \<and>
   list_all (\<lambda>k. map_of (error_entry []) k = None) request_keys"
proof -
  have b1: "loop std (4 / 100) 30 True ([], []) [message_line] = Inr ([], message_entry [])"
    by code_simp
  have nh: "\<not> is_header trace_line" by code_simp
  have b2: "loop std (4 / 100) 30 True ([], []) [access_line] = Inr ([], access_entry)"
    by code_simp
  have rk: "list_ex (\<lambda>k. map_of access_entry k \<noteq> None) request_keys" by code_simp
  have mne: "message_entry [] \<noteq> []" by (simp add: message_entry_def)
  have mrk: "\<not> list_ex (\<lambda>k. map_of (message_entry []) k \<noteq> None) request_keys" by code_simp
  have r: "read_log std (file_with [access_line, message_line]) ''odoo.log'' (Some (4 / 100)) None True
     = Inr [(PyStr ''REQUEST'', [access_entry])]"
    by (rule read_log_access_then_message)
  have mem: "(PyStr ''REQUEST'', [access_entry]) \<in> set [(PyStr ''REQUEST'', [access_entry])]"
    "access_entry \<in> set [access_entry]"
    by simp_all
  have b0: "loop std (4 / 100) 30 True ([], []) [] = Inr ([], [])" by simp
  have h: "is_header message_line" by (rule is_header_message_line)
  have n: "new_entry std (4 / 100) 30 True message_line = Inr (message_entry [])" by code_simp
  have c: "map_of (message_entry []) ''context'' \<noteq> None" by (simp add: message_entry_def)
  have f: "list_all (\<lambda>c. \<not> is_header c) [trace_line, error_line]" by code_simp
  have h2: "is_header access_line" by (rule is_header_access_line)
  have m1: "setitem ''context'' (PyList [trace_line]) (message_entry []) =
              message_entry [trace_line]"
    by code_simp
  have m2: "setitem ''context'' (PyList [trace_line, error_line]) (message_entry []) =
              message_entry [trace_line, error_line]"
    by code_simp
  have cm: "map_of (message_entry []) ''context'' = Some (PyList [])"
    by (simp add: message_entry_def)
  have lv: "map_of (message_entry []) ''level'' = Some (PyStr ''WARNING'')"
    by (simp add: message_entry_def)
  have e0: "end_previous ([], []) = Inr []" by (simp add: end_previous_def)
  have na: "new_entry std (4 / 100) 30 True access_line = Inr access_entry" by code_simp
  have la: "log_append (PyStr ''WARNING'') (message_entry [trace_line, error_line]) [] =
              [(PyStr ''WARNING'', [message_entry [trace_line, error_line]])]"
    by (simp add: log_append_def)
  have ne: "new_entry std (4 / 100) 30 True error_message_line = Inr (error_entry [])"
    by code_simp
  have ene: "error_entry [] \<noteq> []" by (simp add: error_entry_def)
  have enr: "\<not> (butlast (str_split error_message_line ! 5) = ''werkzeug'' \<and>
      str_split error_message_line ! 3 = ''INFO'')"
    by code_simp
  note msg = continuation_lines_go_to_messages [of std "4 / 100" 30 True "[message_line]" "[]"
      "message_entry []" trace_line]
  note req = continuation_lines_go_to_messages [of std "4 / 100" 30 True "[access_line]" "[]"
      access_entry trace_line "file_with [access_line, message_line]" "''odoo.log''"
      "Some (4 / 100)" None "[(PyStr ''REQUEST'', [access_entry])]" "PyStr ''REQUEST''"
      "[access_entry]" access_entry "[]" "([], [])" message_line "message_entry []"
      "[trace_line, error_line]" access_line error_message_line "error_entry []"]
  from msg b1 nh have "case map_of (message_entry []) ''context'' of
         None \<Rightarrow> step std (4 / 100) 30 True ([], message_entry []) trace_line =
                  Inr ([], message_entry [])
       | Some v \<Rightarrow>
           (\<exists>ctx. v = PyList ctx \<and>
              step std (4 / 100) 30 True ([], message_entry []) trace_line =
                Inr ([], setitem ''context'' (PyList (ctx @ [trace_line])) (message_entry [])))"
    by blast
  then have s1: "step std (4 / 100) 30 True ([], message_entry []) trace_line =
     Inr ([], message_entry [trace_line])"
    by (simp add: cm m1)
  from msg b1 nh mne mrk have s0: "\<exists>ctx. map_of (message_entry []) ''context'' = Some (PyList ctx)"
    by blast
  from req b2 nh rk have s2: "map_of access_entry ''context'' = None"
    by blast
  from req b2 nh have "case map_of access_entry ''context'' of
         None \<Rightarrow> step std (4 / 100) 30 True ([], access_entry) trace_line = Inr ([], access_entry)
       | Some v \<Rightarrow>
           (\<exists>ctx. v = PyList ctx \<and>
              step std (4 / 100) 30 True ([], access_entry) trace_line =
                Inr ([], setitem ''context'' (PyList (ctx @ [trace_line])) access_entry))"
    by blast
  with s2 have s3: "step std (4 / 100) 30 True ([], access_entry) trace_line = Inr ([], access_entry)"
    by simp
  from req b0 h n c f h2 obtain logd' lvl where
    x: "end_previous ([], []) = Inr logd'"
       "map_of (message_entry []) ''level'' = Some (PyStr lvl)"
       "loop std (4 / 100) 30 True ([], []) (message_line # [trace_line, error_line]) =
           Inr (logd', setitem ''context'' (PyList [trace_line, error_line]) (message_entry []))"
       "step std (4 / 100) 30 True
             (logd', setitem ''context'' (PyList [trace_line, error_line]) (message_entry []))
             access_line =
           bindE (new_entry std (4 / 100) 30 True access_line)
             (\<lambda>cur. Inr (log_append (PyStr lvl)
                  (setitem ''context'' (PyList [trace_line, error_line]) (message_entry [])) logd',
                          cur))"
    by blast
  from x(1) e0 have ld: "logd' = []" by simp
  from x(2) lv have ll: "lvl = ''WARNING''" by simp
  from x(3) have s4: "loop std (4 / 100) 30 True ([], []) [message_line, trace_line, error_line] =
     Inr ([], message_entry [trace_line, error_line])"
    unfolding ld m2 .
  from x(4) have s5: "step std (4 / 100) 30 True ([], message_entry [trace_line, error_line])
       access_line =
     Inr ([(PyStr ''WARNING'', [message_entry [trace_line, error_line]])], access_entry)"
    unfolding ld ll m2 na la by simp
  from req ne ene enr have s6: "map_of (error_entry []) ''context'' = Some (PyList []) \<and>
      list_all (\<lambda>k. map_of (error_entry []) k = None) request_keys"
    by blast
  from b1 nh s1 mne mrk s0 b2 rk s2 s3 r mem b0 h n c f h2 s4 s5 ne ene enr s6 show ?thesis
    by blast
qed

end
